theory Spec2Isabelle
  imports Complex_Main
begin

section \<open>Values, errors and outcomes\<close>

text \<open>
  The configuration is the keyword dictionary \<open>params\<close> that \<open>json.loads\<close> produced.
  Its values are JSON values as Python sees them. Floats are idealised as reals.
\<close>

datatype pyval =
    PNone
  | PBool bool
  | PInt int
  | PFloat real
  | PStr string
  | PList "pyval list"
  | PDict "(string \<times> pyval) list"

text \<open>Python truthiness, as used by \<open>if pretrained_path:\<close>.\<close>

fun truthy :: "pyval \<Rightarrow> bool" where
  "truthy PNone = False"
| "truthy (PBool b) = b"
| "truthy (PInt n) = (n \<noteq> 0)"
| "truthy (PFloat r) = (r \<noteq> 0)"
| "truthy (PStr s) = (s \<noteq> [])"
| "truthy (PList xs) = (xs \<noteq> [])"
| "truthy (PDict kvs) = (kvs \<noteq> [])"

datatype error =
    KeyError string
  | TypeError
  | ZeroDivisionError
  | LoaderFault
  | CheckpointError
  | BackendError string

type_synonym config = "string \<rightharpoonup> pyval"

text \<open>\<open>params[k]\<close>: a missing key raises \<open>KeyError\<close>.\<close>

definition getitem :: "config \<Rightarrow> string \<Rightarrow> error + pyval" where
  "getitem cfg k = (case cfg k of None \<Rightarrow> Inl (KeyError k) | Some v \<Rightarrow> Inr v)"

text \<open>\<open>params.get(k, default)\<close>.\<close>

definition get_default :: "config \<Rightarrow> string \<Rightarrow> pyval \<Rightarrow> pyval" where
  "get_default cfg k d = (case cfg k of None \<Rightarrow> d | Some v \<Rightarrow> v)"

text \<open>
  A method that raises leaves the object as it was mutated up to the raise, so an
  outcome carries the state in both cases.
\<close>

datatype ('a, 's) outcome = Raised error 's | Returned 'a 's

fun state_of :: "('a, 's) outcome \<Rightarrow> 's" where
  "state_of (Raised e s) = s"
| "state_of (Returned a s) = s"

text \<open>What a call returned, if it returned.\<close>

fun returned_value :: "('a, 's) outcome \<Rightarrow> 'a option" where
  "returned_value (Raised e s) = None"
| "returned_value (Returned a s) = Some a"

section \<open>Paths and checkpoint file names\<close>

text \<open>\<open>os.path.join\<close> (posixpath) for two components; three components nest to the left.\<close>

definition osp_join :: "string \<Rightarrow> string \<Rightarrow> string" where
  "osp_join a b =
     (if b \<noteq> [] \<and> hd b = CHR ''/'' then b
      else if a = [] \<or> last a = CHR ''/'' then a @ b
      else a @ ''/'' @ b)"

definition digit_char :: "nat \<Rightarrow> char" where
  "digit_char d = char_of (48 + d)"

text \<open>\<open>str(n)\<close> for a natural number and for an integer.\<close>

fun str_nat :: "nat \<Rightarrow> string" where
  "str_nat n = (if n < 10 then [digit_char n] else str_nat (n div 10) @ [digit_char (n mod 10)])"

declare str_nat.simps [simp del]

definition str_int :: "int \<Rightarrow> string" where
  "str_int i = (if i < 0 then CHR ''-'' # str_nat (nat (- i)) else str_nat (nat i))"

text \<open>The format specification \<open>{:0>8}\<close>: right-align in width 8, fill with \<open>0\<close>.\<close>

definition format_0gt8 :: "string \<Rightarrow> string" where
  "format_0gt8 s = replicate (8 - length s) (CHR ''0'') @ s"

text \<open>\<open>"{:0>8}.pth".format(epoch)\<close>\<close>

definition ckpt_name :: "int \<Rightarrow> string" where
  "ckpt_name epoch = format_0gt8 (str_int epoch) @ ''.pth''"

text \<open>Reading a decimal string back, used to show that names determine the epoch.\<close>

definition digit_val :: "char \<Rightarrow> nat" where
  "digit_val c = of_char c - 48"

definition nat_of_str :: "string \<Rightarrow> nat" where
  "nat_of_str s = foldl (\<lambda>a c. 10 * a + digit_val c) 0 s"

definition is_digit :: "char \<Rightarrow> bool" where
  "is_digit c = (48 \<le> (of_char c :: nat) \<and> (of_char c :: nat) \<le> 57)"

definition int_of_str :: "string \<Rightarrow> int" where
  "int_of_str s =
     (case s of [] \<Rightarrow> 0
      | c # t \<Rightarrow> if c = CHR ''-'' then - int (nat_of_str t) else int (nat_of_str s))"

definition epoch_of_stem :: "string \<Rightarrow> int" where
  "epoch_of_stem p = int_of_str (dropWhile (\<lambda>c. c = CHR ''0'') p)"

section \<open>External collaborators\<close>

text \<open>
  The network, the optimizer, the loss and the dataset are imported from modules
  outside \<open>train.py\<close> and from the tensor library. They are parameters of the model:
  \<open>'m\<close> is the model's parameter state, \<open>'o\<close> the optimizer state, \<open>'x\<close> one input
  example and \<open>'l\<close> the state of a data loader.

  A batch is a list of examples, each with its integer class label, so that
  \<open>batch["image"]\<close> and \<open>batch["class"]\<close> have the same leading dimension.
  One iteration over a loader yields batches until it is exhausted or raises.
\<close>

type_synonym 'x batch = "('x \<times> int) list"

datatype 'x item = Batch (the_batch: "'x batch") | Raise

fun is_batch :: "'x item \<Rightarrow> bool" where
  "is_batch (Batch b) = True"
| "is_batch Raise = False"

text \<open>The batches an iteration produces before it ends or raises.\<close>

definition yielded :: "'x item list \<Rightarrow> 'x item list" where
  "yielded items = takeWhile is_batch items"

record ('m, 'o, 'x, 'l) backend =
  ecgNet :: "config \<Rightarrow> error + 'm"
    \<comment> \<open>\<open>ecgNet(**self.config)\<close>\<close>
  Adam :: "'m \<Rightarrow> pyval \<Rightarrow> error + 'o"
    \<comment> \<open>\<open>torch.optim.Adam(self.model.parameters(), self.config["lr"])\<close>\<close>
  criterion_to :: "pyval \<Rightarrow> error option"
    \<comment> \<open>\<open>nn.CrossEntropyLoss().to(device)\<close>; \<open>None\<close> when the device is usable\<close>
  EcgDataset1D :: "pyval \<Rightarrow> pyval \<Rightarrow> error + (pyval \<Rightarrow> pyval \<Rightarrow> error + 'l)"
    \<comment> \<open>the dataset object, represented by its \<open>get_dataloader(batch_size, num_workers)\<close>\<close>
  iterate :: "'l \<Rightarrow> 'x item list \<times> 'l"
    \<comment> \<open>one \<open>for ... in loader\<close>: what the iterator yields, and the loader afterwards\<close>
  loader_len :: "'l \<Rightarrow> nat"
    \<comment> \<open>\<open>len(loader)\<close>\<close>
  loss_item :: "bool \<Rightarrow> 'm \<Rightarrow> 'x batch \<Rightarrow> real"
    \<comment> \<open>\<open>self.criterion(self.model(inputs), targets).item()\<close>, by model mode\<close>
  top1 :: "bool \<Rightarrow> 'm \<Rightarrow> 'x list \<Rightarrow> nat \<Rightarrow> int"
    \<comment> \<open>row \<open>i\<close> of \<open>self.model(inputs).topk(k=1)[1].view(-1)\<close>\<close>
  opt_step :: "'m \<Rightarrow> 'o \<Rightarrow> 'x batch \<Rightarrow> 'm \<times> 'o"
    \<comment> \<open>\<open>zero_grad(); loss.backward(); optimizer.step()\<close>\<close>

section \<open>Checkpoints\<close>

record ('m, 'o) checkpoint =
  ck_state_dict :: 'm
  ck_optimizer :: 'o
  ck_epoch :: int
  ck_total_iter :: int

text \<open>
  Persistent storage is the sequence of checkpoint writes, oldest first; the content
  of a path is what was written to it last.
\<close>

type_synonym ('m, 'o) storage = "(string \<times> ('m, 'o) checkpoint) list"

definition read_file :: "('m, 'o) storage \<Rightarrow> string \<Rightarrow> ('m, 'o) checkpoint option" where
  "read_file st path = map_of (rev st) path"

text \<open>
  Modelled from the spec: \<open>utils.save_checkpoint\<close> is not part of the given source.
  The spec says a checkpoint is one file per epoch holding model parameters,
  optimizer state, epoch index and global step count, written to the given path.
\<close>

definition save_checkpoint ::
  "('m, 'o) checkpoint \<Rightarrow> string \<Rightarrow> ('m, 'o) storage \<Rightarrow> ('m, 'o) storage" where
  "save_checkpoint ck path st = st @ [(path, ck)]"

text \<open>
  Modelled from the spec: \<open>utils.load_checkpoint\<close> is not part of the given source.
  The spec says loading restores model and optimizer state in place and returns
  (epoch index, global step count) as stored, and that an invalid path fails.
  The result is the restored model state, the restored optimizer state and the pair.
\<close>

definition load_checkpoint ::
  "pyval \<Rightarrow> ('m, 'o) storage \<Rightarrow> error + ('m \<times> 'o \<times> int \<times> int)" where
  "load_checkpoint path st =
     (case path of
        PStr p \<Rightarrow>
          (case read_file st p of
             None \<Rightarrow> Inl CheckpointError
           | Some ck \<Rightarrow> Inr (ck_state_dict ck, ck_optimizer ck, ck_epoch ck, ck_total_iter ck))
      | _ \<Rightarrow> Inl CheckpointError)"

section \<open>The trainer\<close>

text \<open>
  The scalar log stream of the \<open>SummaryWriter\<close>: tag, value and step of each
  \<open>add_scalar\<close>, in call order.
\<close>

type_synonym scalar = "string \<times> real \<times> int"

text \<open>What \<open>print\<close> wrote, one event per call, with the formatted arguments.\<close>

datatype printed =
    ImportFinished
  | EpochBanner int
  | IterProgress nat nat real
  | TrainLoss real
  | TrainAccuracy real
  | ValidationLoss real
  | ValidationAccuracy real

text \<open>The batch numbers of the progress lines in an output, in order.\<close>

fun progress_prints :: "printed list \<Rightarrow> nat list" where
  "progress_prints [] = []"
| "progress_prints (IterProgress k n l # out) = k # progress_prints out"
| "progress_prints (p # out) = progress_prints out"

text \<open>
  The attributes of \<open>ecgTrainer\<close>, the mode flag of the model (\<open>model.train()\<close> and
  \<open>model.eval()\<close>), and the three places the object writes to: the scalar log, the
  standard output and the checkpoint storage.
\<close>

record ('m, 'o, 'l) trainer =
  config :: config
  exp_name :: pyval
  log_dir :: string
  pth_dir :: string
  writer :: "scalar list"
  model :: 'm
  training :: bool
  optimizer :: 'o
  train_loader :: 'l
  val_loader :: 'l
  training_epoch :: int
  total_iter :: int
  epochs :: pyval
  stdout :: "printed list"
  storage :: "('m, 'o) storage"

text \<open>\<open>osp.join\<close> raises \<open>TypeError\<close> on a component that is not a string.\<close>

fun as_str :: "pyval \<Rightarrow> error + string" where
  "as_str (PStr s) = Inr s"
| "as_str _ = Inl TypeError"

text \<open>Sequencing of steps that may raise.\<close>

definition bind_err :: "error + 'a \<Rightarrow> ('a \<Rightarrow> error + 'b) \<Rightarrow> error + 'b" where
  "bind_err r f = (case r of Inl e \<Rightarrow> Inl e | Inr a \<Rightarrow> f a)"

text \<open>\<open>_init_dataloaders\<close>\<close>

definition init_dataloaders ::
  "('m, 'o, 'x, 'l) backend \<Rightarrow> config \<Rightarrow> error + ('l \<times> 'l)" where
  "init_dataloaders B cfg =
     bind_err (getitem cfg ''train_json'') (\<lambda>tj.
     bind_err (getitem cfg ''mapping_json'') (\<lambda>mj.
     bind_err (EcgDataset1D B tj mj) (\<lambda>train_ds.
     bind_err (getitem cfg ''batch_size'') (\<lambda>bs.
     bind_err (getitem cfg ''num_workers'') (\<lambda>nw.
     bind_err (train_ds bs nw) (\<lambda>train_l.
     bind_err (getitem cfg ''val_json'') (\<lambda>vj.
     bind_err (getitem cfg ''mapping_json'') (\<lambda>mj'.
     bind_err (EcgDataset1D B vj mj') (\<lambda>val_ds.
     bind_err (getitem cfg ''batch_size'') (\<lambda>bs'.
     bind_err (getitem cfg ''num_workers'') (\<lambda>nw'.
     bind_err (val_ds bs' nw') (\<lambda>val_l.
     Inr (train_l, val_l)))))))))))))"

text \<open>
  \<open>ecgTrainer.__init__\<close>, on the storage found at start. Directory creation and
  the creation of the log file are left out: no attribute depends on them.
\<close>

definition init ::
  "('m, 'o, 'x, 'l) backend \<Rightarrow> ('m, 'o) storage \<Rightarrow> config \<Rightarrow> error + ('m, 'o, 'l) trainer" where
  "init B st params =
     bind_err (getitem params ''exp_name'') (\<lambda>name.
     bind_err (getitem params ''exp_dir'') (\<lambda>dir.
     bind_err (as_str dir) (\<lambda>d.
     bind_err (as_str name) (\<lambda>n.
     bind_err (ecgNet B params) (\<lambda>m.
     bind_err (getitem params ''lr'') (\<lambda>lr.
     bind_err (Adam B m lr) (\<lambda>opt.
     bind_err (getitem params ''device'') (\<lambda>dev.
     (case criterion_to B dev of
        Some e \<Rightarrow> Inl e
      | None \<Rightarrow>
     bind_err (init_dataloaders B params) (\<lambda>(train_l, val_l).
     (let pretrained_path = get_default params ''model_path'' (PBool False) in
      bind_err
        (if truthy pretrained_path then load_checkpoint pretrained_path st
         else Inr (m, opt, 0, 0)) (\<lambda>(m', opt', ep, it).
     bind_err (getitem params ''epochs'') (\<lambda>eps.
     Inr \<lparr> config = params,
           exp_name = name,
           log_dir = osp_join (osp_join d n) ''logs'',
           pth_dir = osp_join (osp_join d n) ''checkpoints'',
           writer = [],
           model = m',
           training = True,
           optimizer = opt',
           train_loader = train_l,
           val_loader = val_l,
           training_epoch = ep,
           total_iter = it,
           epochs = eps,
           stdout = [],
           storage = st \<rparr>)))))))))))))"

section \<open>The metric accumulator\<close>

text \<open>
  The running state of one pass: the loss sum and the two label collections
  (\<open>total_loss\<close>, \<open>gt_class\<close>, \<open>pd_class\<close>).
\<close>

record running =
  total_loss :: real
  gt_class :: "int list"
  pd_class :: "int list"

definition running0 :: running where
  "running0 = \<lparr> total_loss = 0, gt_class = [], pd_class = [] \<rparr>"

text \<open>\<open>predictions.topk(k=1)[1].view(-1)\<close>: one class per row of the batch.\<close>

definition classes_of :: "('m, 'o, 'x, 'l) backend \<Rightarrow> bool \<Rightarrow> 'm \<Rightarrow> 'x batch \<Rightarrow> int list" where
  "classes_of B mode m b = map (top1 B mode m (map fst b)) [0..<length b]"

text \<open>
  The examples of a pass are those of the batches its iterator yields, in order. Their
  ground-truth labels, and the labels a fixed model predicts for them in a given mode:
\<close>

definition pass_labels :: "'x item list \<Rightarrow> int list" where
  "pass_labels items = concat (map (\<lambda>it. map snd (the_batch it)) (yielded items))"

definition pass_predictions ::
  "('m, 'o, 'x, 'l) backend \<Rightarrow> bool \<Rightarrow> 'm \<Rightarrow> 'x item list \<Rightarrow> int list" where
  "pass_predictions B mode m items =
     concat (map (\<lambda>it. classes_of B mode m (the_batch it)) (yielded items))"

text \<open>The three accumulation statements shared by both passes.\<close>

definition accumulate ::
  "('m, 'o, 'x, 'l) backend \<Rightarrow> bool \<Rightarrow> 'm \<Rightarrow> 'x batch \<Rightarrow> running \<Rightarrow> running" where
  "accumulate B mode m b r =
     \<lparr> total_loss = total_loss r + loss_item B mode m b,
       gt_class = gt_class r @ map snd b,
       pd_class = pd_class r @ classes_of B mode m b \<rparr>"

text \<open>\<open>total_loss /= len(loader)\<close>: dividing by zero raises.\<close>

definition mean_loss :: "real \<Rightarrow> nat \<Rightarrow> error + real" where
  "mean_loss acc n = (if n = 0 then Inl ZeroDivisionError else Inr (acc / real n))"

text \<open>\<open>sum(pd_class == gt_class)\<close>: the number of positions where the labels agree.\<close>

definition matches :: "int list \<Rightarrow> int list \<Rightarrow> nat" where
  "matches pd gt = length (filter (\<lambda>(p, g). p = g) (zip pd gt))"

text \<open>\<open>sum(pd_class == gt_class) / pd_class.shape[0]\<close>\<close>

definition class_accuracy :: "int list \<Rightarrow> int list \<Rightarrow> error + real" where
  "class_accuracy pd gt =
     (if length pd = 0 then Inl ZeroDivisionError
      else Inr (real (matches pd gt) / real (length pd)))"

section \<open>One training pass\<close>

text \<open>The body of the \<open>for i, batch in enumerate(self.train_loader)\<close> loop.\<close>

definition train_batch ::
  "('m, 'o, 'x, 'l) backend \<Rightarrow> nat \<Rightarrow> 'x batch \<Rightarrow> running \<times> ('m, 'o, 'l) trainer
     \<Rightarrow> running \<times> ('m, 'o, 'l) trainer" where
  "train_batch B i b = (\<lambda>(r, s).
     (let loss = loss_item B (training s) (model s) b;
          r' = accumulate B (training s) (model s) b r;
          (m', o') = opt_step B (model s) (optimizer s) b;
          out = (if (i + 1) mod 100 = 0
                 then stdout s @ [IterProgress (i + 1) (loader_len B (train_loader s)) loss]
                 else stdout s)
      in (r', s\<lparr> model := m', optimizer := o', stdout := out,
                writer := writer s @ [(''Train loss (iterations)'', loss, total_iter s)],
                total_iter := total_iter s + 1 \<rparr>)))"

fun train_batches ::
  "('m, 'o, 'x, 'l) backend \<Rightarrow> nat \<Rightarrow> 'x item list \<Rightarrow> running \<times> ('m, 'o, 'l) trainer
     \<Rightarrow> (running, ('m, 'o, 'l) trainer) outcome" where
  "train_batches B i [] (r, s) = Returned r s"
| "train_batches B i (Raise # rest) (r, s) = Raised LoaderFault s"
| "train_batches B i (Batch b # rest) (r, s) = train_batches B (i + 1) rest (train_batch B i b (r, s))"

text \<open>The trainer after the first \<open>k\<close> items of a training pass entered in \<open>s\<close>.\<close>

definition after_batches ::
  "('m, 'o, 'x, 'l) backend \<Rightarrow> ('m, 'o, 'l) trainer \<Rightarrow> 'x item list \<Rightarrow> nat
     \<Rightarrow> ('m, 'o, 'l) trainer" where
  "after_batches B s items k = state_of (train_batches B 0 (take k items) (running0, s))"

text \<open>
  The labels predicted over a training pass entered in \<open>s\<close>: each batch is predicted
  by the model as it is when the batch arrives, in training mode.
\<close>

definition train_predictions ::
  "('m, 'o, 'x, 'l) backend \<Rightarrow> ('m, 'o, 'l) trainer \<Rightarrow> 'x item list \<Rightarrow> int list" where
  "train_predictions B s items =
     concat (map (\<lambda>k. classes_of B True (model (after_batches B s items k)) (the_batch (items ! k)))
                 [0..<length (yielded items)])"

text \<open>\<open>ecgTrainer.train_epoch\<close>\<close>

definition train_epoch ::
  "('m, 'o, 'x, 'l) backend \<Rightarrow> ('m, 'o, 'l) trainer \<Rightarrow> (unit, ('m, 'o, 'l) trainer) outcome" where
  "train_epoch B s =
     (let (items, l') = iterate B (train_loader s);
          s1 = s\<lparr> training := True, train_loader := l' \<rparr>
      in case train_batches B 0 items (running0, s1) of
           Raised e s2 \<Rightarrow> Raised e s2
         | Returned r s2 \<Rightarrow>
             (case mean_loss (total_loss r) (loader_len B (train_loader s2)) of
                Inl e \<Rightarrow> Raised e s2
              | Inr loss \<Rightarrow>
                  (case class_accuracy (pd_class r) (gt_class r) of
                     Inl e \<Rightarrow> Raised e s2
                   | Inr acc \<Rightarrow>
                       Returned ()
                         (s2\<lparr> stdout := stdout s2 @ [TrainLoss loss, TrainAccuracy acc],
                              writer := writer s2 @
                                [(''Train loss (epochs)'', loss, training_epoch s2),
                                 (''Train CLASS accuracy'', acc, training_epoch s2)] \<rparr>))))"

section \<open>One validation pass\<close>

fun val_batches ::
  "('m, 'o, 'x, 'l) backend \<Rightarrow> 'x item list \<Rightarrow> running \<times> ('m, 'o, 'l) trainer
     \<Rightarrow> (running, ('m, 'o, 'l) trainer) outcome" where
  "val_batches B [] (r, s) = Returned r s"
| "val_batches B (Raise # rest) (r, s) = Raised LoaderFault s"
| "val_batches B (Batch b # rest) (r, s) =
     val_batches B rest (accumulate B (training s) (model s) b r, s)"

text \<open>\<open>ecgTrainer.val\<close>\<close>

definition val ::
  "('m, 'o, 'x, 'l) backend \<Rightarrow> ('m, 'o, 'l) trainer \<Rightarrow> (real, ('m, 'o, 'l) trainer) outcome" where
  "val B s =
     (let (items, l') = iterate B (val_loader s);
          s1 = s\<lparr> training := False, val_loader := l' \<rparr>
      in case val_batches B items (running0, s1) of
           Raised e s2 \<Rightarrow> Raised e s2
         | Returned r s2 \<Rightarrow>
             (case mean_loss (total_loss r) (loader_len B (val_loader s2)) of
                Inl e \<Rightarrow> Raised e s2
              | Inr loss \<Rightarrow>
                  (case class_accuracy (pd_class r) (gt_class r) of
                     Inl e \<Rightarrow> Raised e s2
                   | Inr acc \<Rightarrow>
                       Returned loss
                         (s2\<lparr> stdout := stdout s2 @ [ValidationLoss loss, ValidationAccuracy acc],
                              writer := writer s2 @
                                [(''Validation loss'', loss, training_epoch s2),
                                 (''Validation CLASS accuracy'', acc, training_epoch s2)] \<rparr>))))"

section \<open>The epoch driver\<close>

text \<open>
  \<open>range(a, b)\<close> needs integers; a Boolean counts as one. The checkpoint's epoch is
  an integer by the type of the record.
\<close>

fun as_index :: "pyval \<Rightarrow> error + int" where
  "as_index (PInt n) = Inr n"
| "as_index (PBool b) = Inr (if b then 1 else 0)"
| "as_index _ = Inl TypeError"

text \<open>The body of \<open>for epoch in range(self.training_epoch, self.epochs)\<close>.\<close>

definition ckpt_path :: "string \<Rightarrow> int \<Rightarrow> string" where
  "ckpt_path dir epoch = osp_join dir (ckpt_name epoch)"

definition loop_body ::
  "('m, 'o, 'x, 'l) backend \<Rightarrow> int \<Rightarrow> ('m, 'o, 'l) trainer \<Rightarrow> (unit, ('m, 'o, 'l) trainer) outcome" where
  "loop_body B epoch s =
     (let s1 = s\<lparr> stdout := stdout s @ [EpochBanner (training_epoch s + 1)] \<rparr>
      in case train_epoch B s1 of
           Raised e s2 \<Rightarrow> Raised e s2
         | Returned u s2 \<Rightarrow>
             (let ck = \<lparr> ck_state_dict = model s2, ck_optimizer = optimizer s2,
                         ck_epoch = epoch, ck_total_iter = total_iter s2 \<rparr>;
                  s3 = s2\<lparr> storage := save_checkpoint ck (ckpt_path (pth_dir s2) epoch) (storage s2) \<rparr>
              in case val B s3 of
                   Raised e s4 \<Rightarrow> Raised e s4
                 | Returned val_loss s4 \<Rightarrow>
                     Returned () (s4\<lparr> training_epoch := training_epoch s4 + 1 \<rparr>)))"

fun loop_epochs ::
  "('m, 'o, 'x, 'l) backend \<Rightarrow> int list \<Rightarrow> ('m, 'o, 'l) trainer \<Rightarrow> (unit, ('m, 'o, 'l) trainer) outcome" where
  "loop_epochs B [] s = Returned () s"
| "loop_epochs B (epoch # rest) s =
     (case loop_body B epoch s of
        Raised e s' \<Rightarrow> Raised e s'
      | Returned u s' \<Rightarrow> loop_epochs B rest s')"

text \<open>\<open>ecgTrainer.loop\<close>: the range is computed once, on entry.\<close>

definition loop ::
  "('m, 'o, 'x, 'l) backend \<Rightarrow> ('m, 'o, 'l) trainer \<Rightarrow> (unit, ('m, 'o, 'l) trainer) outcome" where
  "loop B s =
     (case as_index (epochs s) of
        Inl e \<Rightarrow> Raised e s
      | Inr stop \<Rightarrow> loop_epochs B [training_epoch s..stop - 1] s)"

text \<open>The script body: build the trainer from the configuration, then run \<open>loop\<close>.\<close>

definition main ::
  "('m, 'o, 'x, 'l) backend \<Rightarrow> ('m, 'o) storage \<Rightarrow> config
     \<Rightarrow> error + (unit, ('m, 'o, 'l) trainer) outcome" where
  "main B st cfg =
     (case init B st cfg of
        Inl e \<Rightarrow> Inl e
      | Inr trainer \<Rightarrow> Inr (loop B (trainer\<lparr> stdout := stdout trainer @ [ImportFinished] \<rparr>)))"

text \<open>What the storage holds when the script has ended, for a script started on \<open>st\<close>.\<close>

definition final_storage ::
  "('m, 'o) storage \<Rightarrow> error + (unit, ('m, 'o, 'l) trainer) outcome \<Rightarrow> ('m, 'o) storage" where
  "final_storage st r = (case r of Inl e \<Rightarrow> st | Inr out \<Rightarrow> storage (state_of out))"

text \<open>The writes of a storage as path, stored epoch index and stored step count.\<close>

definition written :: "('m, 'o) storage \<Rightarrow> (string \<times> int \<times> int) list" where
  "written st = map (\<lambda>(p, ck). (p, ck_epoch ck, ck_total_iter ck)) st"

section \<open>A small concrete instance\<close>

text \<open>
  A backend small enough to run by hand. The model is a counter of optimizer steps,
  an input example is an integer and the predicted class of an example is the
  example itself. A loader is its reported length and the passes it has left, each
  pass a list of items; the manifest path selects the loader.
\<close>

type_synonym toy_loader = "nat \<times> int item list list"

definition toy_pass :: "int item list" where
  "toy_pass = [Batch [(1, 1), (0, 1)], Batch [(2, 2)]]"

definition toy_dataset :: "pyval \<Rightarrow> toy_loader" where
  "toy_dataset manifest =
     (if manifest = PStr ''train.json'' then (2, [toy_pass, toy_pass, toy_pass])
      else if manifest = PStr ''flaky.json'' then (2, [toy_pass, [Batch [(1, 1)], Raise], toy_pass])
      else if manifest = PStr ''long.json'' then (100, [replicate 100 (Batch [(1, 1)])])
      else (1, [[Batch [(3, 3)]], [Batch [(3, 3)]], [Batch [(3, 3)]]]))"

definition toy_iterate :: "toy_loader \<Rightarrow> int item list \<times> toy_loader" where
  "toy_iterate l = (case snd l of [] \<Rightarrow> ([], l) | p # ps \<Rightarrow> (p, (fst l, ps)))"

definition toy :: "(nat, nat, int, toy_loader) backend" where
  "toy = \<lparr> ecgNet = (\<lambda>cfg. Inr 0),
           Adam = (\<lambda>m lr. Inr 0),
           criterion_to = (\<lambda>dev. None),
           EcgDataset1D = (\<lambda>manifest mapping. Inr (\<lambda>bs nw. Inr (toy_dataset manifest))),
           iterate = toy_iterate,
           loader_len = fst,
           loss_item = (\<lambda>mode m b. 1 / 2),
           top1 = (\<lambda>mode m xs i. xs ! i),
           opt_step = (\<lambda>m opt b. (Suc m, Suc opt)) \<rparr>"

text \<open>A configuration file for this instance: two epochs, no checkpoint to resume from.\<close>

definition toy_config :: config where
  "toy_config = map_of
     [(''exp_name'', PStr ''e''), (''exp_dir'', PStr ''d''), (''device'', PStr ''cpu''),
      (''lr'', PFloat (1 / 1000)), (''epochs'', PInt 2), (''batch_size'', PInt 2),
      (''num_workers'', PInt 0), (''train_json'', PStr ''train.json''),
      (''val_json'', PStr ''val.json''), (''mapping_json'', PStr ''mapping.json'')]"

text \<open>A trainer of this instance with the given counters, loaders and storage.\<close>

definition toy_trainer ::
  "int \<Rightarrow> int \<Rightarrow> pyval \<Rightarrow> toy_loader \<Rightarrow> toy_loader \<Rightarrow> (nat, nat) storage
     \<Rightarrow> (nat, nat, toy_loader) trainer" where
  "toy_trainer ep it eps trl vl st =
     \<lparr> config = Map.empty, exp_name = PStr ''e'', log_dir = ''d/e/logs'',
       pth_dir = ''d/e/checkpoints'', writer = [], model = 0, training = True,
       optimizer = 0, train_loader = trl, val_loader = vl, training_epoch = ep,
       total_iter = it, epochs = eps, stdout = [], storage = st \<rparr>"

text \<open>
  The storage left by the script when it is run once on an empty storage with this
  configuration.
\<close>

definition first_run :: "(nat, nat) storage" where
  "first_run = final_storage [] (main toy [] toy_config)"

section \<open>Decimal names\<close>

lemma digit_val_digit_char: "d < 10 \<Longrightarrow> digit_val (digit_char d) = d"
  by (simp add: digit_val_def digit_char_def)

lemma is_digit_digit_char: "d < 10 \<Longrightarrow> is_digit (digit_char d)"
  by (simp add: is_digit_def digit_char_def)

lemma nat_of_str_snoc: "nat_of_str (s @ [c]) = 10 * nat_of_str s + digit_val c"
  by (simp add: nat_of_str_def)

lemma nat_of_str_str_nat: "nat_of_str (str_nat n) = n"
proof (induction n rule: str_nat.induct)
  case (1 n)
  show ?case
  proof (cases "n < 10")
    case True
    then show ?thesis
      by (subst str_nat.simps) (simp add: nat_of_str_def digit_val_digit_char)
  next
    case False
    with 1 show ?thesis
      by (subst str_nat.simps) (simp add: nat_of_str_snoc digit_val_digit_char)
  qed
qed

lemma str_nat_digits: "list_all is_digit (str_nat n)"
proof (induction n rule: str_nat.induct)
  case (1 n)
  show ?case
  proof (cases "n < 10")
    case True
    then show ?thesis
      by (subst str_nat.simps) (simp add: is_digit_digit_char)
  next
    case False
    with 1 show ?thesis
      by (subst str_nat.simps) (simp add: is_digit_digit_char)
  qed
qed

lemma str_nat_nonempty: "str_nat n \<noteq> []"
  by (subst str_nat.simps) simp

lemma of_char_digit_char: "d < 10 \<Longrightarrow> (of_char (digit_char d) :: nat) = 48 + d"
  by (simp add: digit_char_def)

lemma char_of_48: "char_of (48::nat) = CHR ''0''"
  by code_simp

lemma char_minus: "(of_char (CHR ''-'') :: nat) = 45"
  by code_simp

lemma digit_char_zero: "d < 10 \<Longrightarrow> digit_char d = CHR ''0'' \<longleftrightarrow> d = 0"
proof -
  assume d: "d < 10"
  show ?thesis
  proof
    assume "digit_char d = CHR ''0''"
    then have "(of_char (digit_char d) :: nat) = of_char (char_of (48::nat))"
      by (simp only: char_of_48)
    with d show "d = 0" by (simp add: of_char_digit_char)
  next
    assume "d = 0" then show "digit_char d = CHR ''0''"
      by (simp add: digit_char_def char_of_48)
  qed
qed

lemma not_digit_minus: "\<not> is_digit (CHR ''-'')"
  by (simp add: is_digit_def char_minus)

lemma is_digit_zero: "is_digit (CHR ''0'')"
  using is_digit_digit_char [of 0] by (simp add: digit_char_def char_of_48)

lemma hd_str_nat: "0 < n \<Longrightarrow> hd (str_nat n) \<noteq> CHR ''0''"
proof (induction n rule: str_nat.induct)
  case (1 n)
  show ?case
  proof (cases "n < 10")
    case True
    with 1(2) show ?thesis
      by (subst str_nat.simps) (simp add: digit_char_zero)
  next
    case False
    then have "0 < n div 10" by simp
    with 1 False show ?thesis
      by (subst str_nat.simps) (simp add: str_nat_nonempty)
  qed
qed


lemma hd_str_nat_digit: "is_digit (hd (str_nat n))"
  using str_nat_digits [of n] str_nat_nonempty [of n]
  by (cases "str_nat n") simp_all

lemma int_of_str_str_int: "int_of_str (str_int i) = i"
proof (cases "i < 0")
  case True
  then show ?thesis
    by (simp add: int_of_str_def str_int_def nat_of_str_str_nat)
next
  case False
  obtain c t where ct: "str_nat (nat i) = c # t"
    using str_nat_nonempty [of "nat i"] by (cases "str_nat (nat i)") auto
  have "c \<noteq> CHR ''-''"
    using hd_str_nat_digit [of "nat i"] not_digit_minus ct by auto
  with ct have "int_of_str (str_nat (nat i)) = int (nat_of_str (str_nat (nat i)))"
    by (simp add: int_of_str_def)
  with False show ?thesis
    by (simp add: str_int_def nat_of_str_str_nat)
qed

lemma dropWhile_format: "dropWhile (\<lambda>c. c = CHR ''0'') (format_0gt8 s) = dropWhile (\<lambda>c. c = CHR ''0'') s"
  by (simp add: format_0gt8_def dropWhile_append3 dropWhile_append)

lemma str_nat_0: "str_nat 0 = ''0''"
  by code_simp

lemma epoch_of_stem_format: "epoch_of_stem (format_0gt8 (str_int i)) = i"
proof -
  consider "i < 0" | "i = 0" | "0 < i" by linarith
  then have "int_of_str (dropWhile (\<lambda>c. c = CHR ''0'') (str_int i)) = i"
  proof cases
    case 1
    have "CHR ''-'' \<noteq> CHR ''0''" by simp
    with 1 have "dropWhile (\<lambda>c. c = CHR ''0'') (str_int i) = str_int i"
      by (simp add: str_int_def)
    then show ?thesis by (simp add: int_of_str_str_int)
  next
    case 2
    then show ?thesis by (simp add: str_int_def str_nat_0 int_of_str_def)
  next
    case 3
    then have "hd (str_nat (nat i)) \<noteq> CHR ''0''" by (simp add: hd_str_nat)
    then have "dropWhile (\<lambda>c. c = CHR ''0'') (str_nat (nat i)) = str_nat (nat i)"
      using str_nat_nonempty [of "nat i"] by (cases "str_nat (nat i)") auto
    with 3 have "dropWhile (\<lambda>c. c = CHR ''0'') (str_int i) = str_int i"
      by (simp add: str_int_def)
    then show ?thesis by (simp add: int_of_str_str_int)
  qed
  then show ?thesis by (simp add: epoch_of_stem_def dropWhile_format)
qed

lemma ckpt_name_inj: "ckpt_name a = ckpt_name b \<Longrightarrow> a = b"
proof -
  assume "ckpt_name a = ckpt_name b"
  then have "format_0gt8 (str_int a) = format_0gt8 (str_int b)"
    by (simp add: ckpt_name_def)
  then have "epoch_of_stem (format_0gt8 (str_int a)) = epoch_of_stem (format_0gt8 (str_int b))"
    by simp
  then show ?thesis by (simp add: epoch_of_stem_format)
qed

lemma char_slash: "(of_char (CHR ''/'') :: nat) = 47"
  by code_simp

lemma not_digit_slash: "\<not> is_digit (CHR ''/'')"
  by (simp add: is_digit_def char_slash)

lemma hd_str_int: "str_int i \<noteq> [] \<and> hd (str_int i) \<noteq> CHR ''/''"
  using hd_str_nat_digit [of "nat i"] not_digit_slash str_nat_nonempty [of "nat i"]
  by (auto simp: str_int_def)

lemma hd_format: "s \<noteq> [] \<Longrightarrow> hd s \<noteq> CHR ''/'' \<Longrightarrow> hd (format_0gt8 s) \<noteq> CHR ''/''"
  by (cases "8 - length s") (simp_all add: format_0gt8_def)

lemma ckpt_name_not_abs: "ckpt_name e \<noteq> [] \<and> hd (ckpt_name e) \<noteq> CHR ''/''"
proof -
  have ne: "format_0gt8 (str_int e) \<noteq> []"
    using hd_str_int [of e] by (simp add: format_0gt8_def)
  have "hd (format_0gt8 (str_int e)) \<noteq> CHR ''/''"
    using hd_str_int [of e] by (simp add: hd_format)
  with ne show ?thesis by (simp add: ckpt_name_def)
qed

lemma ckpt_path_eq: "ckpt_path d e = (if d = [] \<or> last d = CHR ''/'' then d else d @ ''/'') @ ckpt_name e"
  using ckpt_name_not_abs [of e] by (simp add: ckpt_path_def osp_join_def)

lemma ckpt_path_inj: "ckpt_path d a = ckpt_path d b \<Longrightarrow> a = b"
  by (simp add: ckpt_path_eq ckpt_name_inj)

lemma inj_ckpt_path: "inj (ckpt_path d)"
  by (rule injI) (rule ckpt_path_inj)

lemma length_str_nat: "0 < k \<Longrightarrow> n < 10 ^ k \<Longrightarrow> length (str_nat n) \<le> k"
proof (induction n arbitrary: k rule: str_nat.induct)
  case (1 n)
  show ?case
  proof (cases "n < 10")
    case True
    with 1(2) show ?thesis by (subst str_nat.simps) simp
  next
    case False
    with 1(3) have "1 < k" by (cases "k = 1") (use 1(2) in auto)
    then obtain j where k: "k = Suc j" "0 < j" by (cases k) auto
    with 1(3) have "n div 10 < 10 ^ j" by (simp add: less_mult_imp_div_less mult.commute)
    with 1(1) [OF False k(2)] have "length (str_nat (n div 10)) \<le> j" by simp
    with False k show ?thesis by (subst str_nat.simps) simp
  qed
qed

lemma nat_of_str_zeros: "nat_of_str (replicate k (CHR ''0'') @ s) = nat_of_str s"
proof -
  have z: "digit_val (CHR ''0'') = 0" using digit_val_digit_char [of 0]
    by (simp add: digit_char_def char_of_48)
  have "foldl (\<lambda>a c. 10 * a + digit_val c) 0 (replicate k (CHR ''0'')) = 0"
    by (induction k) (simp_all add: z)
  then show ?thesis by (simp add: nat_of_str_def)
qed

lemma ckpt_name_eight_digits:
  assumes "0 \<le> e" and "e < 10 ^ 8"
  shows "length (format_0gt8 (str_int e)) = 8 \<and> list_all is_digit (format_0gt8 (str_int e)) \<and>
         int (nat_of_str (format_0gt8 (str_int e))) = e"
proof -
  from assms have si: "str_int e = str_nat (nat e)" by (simp add: str_int_def)
  from assms have "nat e < 10 ^ 8" by simp
  then have len: "length (str_nat (nat e)) \<le> 8" using length_str_nat [of 8 "nat e"] by simp
  then have "length (format_0gt8 (str_int e)) = 8" by (simp add: si format_0gt8_def)
  moreover have "list_all is_digit (format_0gt8 (str_int e))"
    using str_nat_digits [of "nat e"] is_digit_zero
    by (auto simp: si format_0gt8_def list_all_iff)
  moreover have "int (nat_of_str (format_0gt8 (str_int e))) = e"
    using assms by (simp add: si format_0gt8_def nat_of_str_zeros nat_of_str_str_nat)
  ultimately show ?thesis by simp
qed


section \<open>Facts about the passes\<close>

lemma Returned_caseD:
  "(case x of Returned a s \<Rightarrow> P a s | Raised e s \<Rightarrow> False) \<Longrightarrow> \<exists>a s. x = Returned a s \<and> P a s"
  by (cases x) simp_all


lemma train_batch_step:
  assumes "train_batch B i b (r, s) = (r', s')"
  shows "training_epoch s' = training_epoch s" "storage s' = storage s" "pth_dir s' = pth_dir s"
    "epochs s' = epochs s" "train_loader s' = train_loader s" "val_loader s' = val_loader s"
    "training s' = training s" "total_iter s' = total_iter s + 1"
    "writer s' = writer s @ [(''Train loss (iterations)'', loss_item B (training s) (model s) b, total_iter s)]"
  using assms by (auto simp: train_batch_def Let_def split: prod.splits)

lemma train_batches_frame:
  "training_epoch (state_of (train_batches B i items (r, s))) = training_epoch s \<and>
   storage (state_of (train_batches B i items (r, s))) = storage s \<and>
   pth_dir (state_of (train_batches B i items (r, s))) = pth_dir s \<and>
   epochs (state_of (train_batches B i items (r, s))) = epochs s \<and>
   train_loader (state_of (train_batches B i items (r, s))) = train_loader s \<and>
   val_loader (state_of (train_batches B i items (r, s))) = val_loader s \<and>
   training (state_of (train_batches B i items (r, s))) = training s"
proof (induction items arbitrary: i r s)
  case Nil
  show ?case by simp
next
  case (Cons it items)
  show ?case
  proof (cases it)
    case (Batch b)
    obtain r' s' where step: "train_batch B i b (r, s) = (r', s')"
      by (cases "train_batch B i b (r, s)")
    show ?thesis
      using Cons.IH [of "i + 1" r' s'] Batch step by (simp add: train_batch_step [OF step])
  next
    case Raise
    then show ?thesis by simp
  qed
qed

lemma train_batches_total_iter:
  "total_iter (state_of (train_batches B i items (r, s))) = total_iter s + int (length (yielded items))"
proof (induction items arbitrary: i r s)
  case Nil
  show ?case by (simp add: yielded_def)
next
  case (Cons it items)
  show ?case
  proof (cases it)
    case (Batch b)
    obtain r' s' where step: "train_batch B i b (r, s) = (r', s')"
      by (cases "train_batch B i b (r, s)")
    show ?thesis
      using Cons.IH [of "i + 1" r' s'] Batch step by (simp add: train_batch_step [OF step] yielded_def)
  next
    case Raise
    then show ?thesis by (simp add: yielded_def)
  qed
qed

lemma train_batches_Returned_iff:
  "(\<exists>r' s'. train_batches B i items (r, s) = Returned r' s') \<longleftrightarrow> list_all is_batch items"
proof (induction items arbitrary: i r s)
  case Nil
  show ?case by simp
next
  case (Cons it items)
  show ?case
  proof (cases it)
    case (Batch b)
    obtain r' s' where step: "train_batch B i b (r, s) = (r', s')"
      by (cases "train_batch B i b (r, s)")
    then show ?thesis
      using Cons.IH [of "i + 1" r' s'] Batch by simp
  next
    case Raise
    then show ?thesis by simp
  qed
qed

lemma train_batches_Raised:
  "train_batches B i items (r, s) = Raised e s' \<Longrightarrow> e = LoaderFault"
proof (induction items arbitrary: i r s)
  case Nil
  then show ?case by simp
next
  case (Cons it items)
  show ?case
  proof (cases it)
    case (Batch b)
    obtain r' s'' where step: "train_batch B i b (r, s) = (r', s'')"
      by (cases "train_batch B i b (r, s)")
    then show ?thesis
      using Cons.IH [of "i + 1" r' s''] Cons.prems Batch by simp
  next
    case Raise
    then show ?thesis using Cons.prems by simp
  qed
qed

lemma val_batches_state: "state_of (val_batches B items (r, s)) = s"
proof (induction items arbitrary: r)
  case Nil
  show ?case by simp
next
  case (Cons it items)
  then show ?case by (cases it) simp_all
qed

lemma val_batches_Returned_iff:
  "(\<exists>r' s'. val_batches B items (r, s) = Returned r' s') \<longleftrightarrow> list_all is_batch items"
proof (induction items arbitrary: r)
  case Nil
  show ?case by simp
next
  case (Cons it items)
  then show ?case by (cases it) simp_all
qed

lemma val_batches_Raised: "val_batches B items (r, s) = Raised e s' \<Longrightarrow> e = LoaderFault"
proof (induction items arbitrary: r)
  case Nil
  then show ?case by simp
next
  case (Cons it items)
  then show ?case by (cases it) simp_all
qed

lemma val_batches_fold:
  "val_batches B (map Batch bs) (r, s) = Returned (fold (accumulate B (training s) (model s)) bs r) s"
  by (induction bs arbitrary: r) simp_all

lemma items_all_batches: "list_all is_batch items \<Longrightarrow> \<exists>bs. items = map Batch bs"
proof (induction items)
  case Nil
  show ?case by simp
next
  case (Cons it items)
  then obtain bs where "items = map Batch bs" by auto
  moreover from Cons.prems obtain b where "it = Batch b" by (cases it) auto
  ultimately have "it # items = map Batch (b # bs)" by simp
  then show ?case by (rule exI)
qed

lemma fold_accumulate_loss:
  "total_loss (fold (accumulate B mode m) bs r) = total_loss r + sum_list (map (loss_item B mode m) bs)"
  by (induction bs arbitrary: r) (simp_all add: accumulate_def)

lemma fold_accumulate_gt:
  "gt_class (fold (accumulate B mode m) bs r) = gt_class r @ concat (map (map snd) bs)"
  by (induction bs arbitrary: r) (simp_all add: accumulate_def)

lemma fold_accumulate_pd:
  "pd_class (fold (accumulate B mode m) bs r) = pd_class r @ concat (map (classes_of B mode m) bs)"
  by (induction bs arbitrary: r) (simp_all add: accumulate_def)

lemma length_classes_of: "length (classes_of B mode m b) = length b"
  by (simp add: classes_of_def)

lemma val_Returned:
  assumes "val B s = Returned v s'" and "iterate B (val_loader s) = (items, l')"
  shows "\<exists>bs acc. items = map Batch bs \<and> loader_len B l' \<noteq> 0 \<and>
           v = sum_list (map (loss_item B False (model s)) bs) / real (loader_len B l') \<and>
           class_accuracy (concat (map (classes_of B False (model s)) bs)) (concat (map (map snd) bs)) = Inr acc \<and>
           s' = s\<lparr> training := False, val_loader := l',
                   stdout := stdout s @ [ValidationLoss v, ValidationAccuracy acc],
                   writer := writer s @ [(''Validation loss'', v, training_epoch s),
                                         (''Validation CLASS accuracy'', acc, training_epoch s)] \<rparr>"
proof -
  let ?s1 = "s\<lparr> training := False, val_loader := l' \<rparr>"
  from assms obtain r s2 where vb: "val_batches B items (running0, ?s1) = Returned r s2"
    by (auto simp: val_def split: outcome.splits)
  then have "list_all is_batch items" using val_batches_Returned_iff by blast
  then obtain bs where bs: "items = map Batch bs" using items_all_batches by blast
  from vb bs have r: "r = fold (accumulate B False (model s)) bs running0" and s2: "s2 = ?s1"
    by (simp_all add: val_batches_fold)
  have tl: "total_loss r = sum_list (map (loss_item B False (model s)) bs)"
    and gt: "gt_class r = concat (map (map snd) bs)"
    and pd: "pd_class r = concat (map (classes_of B False (model s)) bs)"
    by (simp_all add: r fold_accumulate_loss fold_accumulate_gt fold_accumulate_pd running0_def)
  from assms vb s2 show ?thesis
    by (auto simp: val_def bs tl gt pd mean_loss_def split: sum.splits if_splits)
qed

lemma val_batches_cases:
  "val_batches B items (r, s) = Raised LoaderFault s \<or> (\<exists>r'. val_batches B items (r, s) = Returned r' s)"
proof (cases "val_batches B items (r, s)")
  case (Raised e s')
  then show ?thesis
    using val_batches_state [of B items r s] val_batches_Raised [of B items r s e s'] by simp
next
  case (Returned r' s')
  then show ?thesis using val_batches_state [of B items r s] by simp
qed

lemma val_frame:
  "training_epoch (state_of (val B s)) = training_epoch s \<and>
   total_iter (state_of (val B s)) = total_iter s \<and>
   storage (state_of (val B s)) = storage s \<and>
   pth_dir (state_of (val B s)) = pth_dir s \<and>
   epochs (state_of (val B s)) = epochs s \<and>
   model (state_of (val B s)) = model s \<and>
   optimizer (state_of (val B s)) = optimizer s \<and>
   train_loader (state_of (val B s)) = train_loader s"
proof -
  obtain items l' where it: "iterate B (val_loader s) = (items, l')"
    by (cases "iterate B (val_loader s)")
  let ?s1 = "s\<lparr> training := False, val_loader := l' \<rparr>"
  from val_batches_cases [of B items running0 ?s1] show ?thesis
    by (auto simp: val_def it split: sum.splits)
qed

lemma train_epoch_frame:
  assumes "iterate B (train_loader s) = (items, l')"
  shows "training_epoch (state_of (train_epoch B s)) = training_epoch s \<and>
   total_iter (state_of (train_epoch B s)) = total_iter s + int (length (yielded items)) \<and>
   storage (state_of (train_epoch B s)) = storage s \<and>
   pth_dir (state_of (train_epoch B s)) = pth_dir s \<and>
   epochs (state_of (train_epoch B s)) = epochs s \<and>
   val_loader (state_of (train_epoch B s)) = val_loader s \<and>
   train_loader (state_of (train_epoch B s)) = l'"
proof -
  let ?s1 = "s\<lparr> training := True, train_loader := l' \<rparr>"
  let ?o = "train_batches B 0 items (running0, ?s1)"
  have fr: "training_epoch (state_of ?o) = training_epoch s"
    "storage (state_of ?o) = storage s" "pth_dir (state_of ?o) = pth_dir s"
    "epochs (state_of ?o) = epochs s" "val_loader (state_of ?o) = val_loader s"
    "train_loader (state_of ?o) = l'"
    using train_batches_frame [of B 0 items running0 ?s1] by simp_all
  have ti: "total_iter (state_of ?o) = total_iter s + int (length (yielded items))"
    using train_batches_total_iter [of B 0 items running0 ?s1] by simp
  show ?thesis
    using fr ti by (cases ?o) (auto simp: train_epoch_def assms split: sum.splits)
qed

lemma train_epoch_Returned_batches:
  assumes "train_epoch B s = Returned u s'" and "iterate B (train_loader s) = (items, l')"
  shows "list_all is_batch items"
proof -
  let ?s1 = "s\<lparr> training := True, train_loader := l' \<rparr>"
  from assms obtain r s2 where "train_batches B 0 items (running0, ?s1) = Returned r s2"
    by (auto simp: train_epoch_def split: outcome.splits)
  then show ?thesis using train_batches_Returned_iff by blast
qed

lemma yielded_all: "list_all is_batch items \<Longrightarrow> yielded items = items"
  by (simp add: yielded_def list_all_iff)

lemma train_epoch_fault:
  assumes "iterate B (train_loader s) = (items, l')" and "\<not> list_all is_batch items"
  shows "\<exists>s'. train_epoch B s = Raised LoaderFault s'"
proof -
  let ?s1 = "s\<lparr> training := True, train_loader := l' \<rparr>"
  let ?o = "train_batches B 0 items (running0, ?s1)"
  from assms(2) have "\<not> (\<exists>r' s'. ?o = Returned r' s')"
    using train_batches_Returned_iff [of B 0 items running0 ?s1] by simp
  then obtain e s' where o: "?o = Raised e s'" by (cases ?o) auto
  then have "e = LoaderFault" by (rule train_batches_Raised)
  with o show ?thesis by (simp add: train_epoch_def assms(1))
qed

lemma matches_card:
  assumes "length pd = length gt"
  shows "matches pd gt = card {i. i < length pd \<and> pd ! i = gt ! i}"
proof -
  have "matches pd gt = card {i. i < length (zip pd gt) \<and> (\<lambda>(p, g). p = g) (zip pd gt ! i)}"
    unfolding matches_def by (rule length_filter_conv_card)
  also have "{i. i < length (zip pd gt) \<and> (\<lambda>(p, g). p = g) (zip pd gt ! i)}
             = {i. i < length pd \<and> pd ! i = gt ! i}"
    using assms by auto
  finally show ?thesis .
qed

lemma accumulate_aligned:
  "length (pd_class r) = length (gt_class r) \<Longrightarrow>
   length (pd_class (accumulate B mode m b r)) = length (gt_class (accumulate B mode m b r))"
  by (simp add: accumulate_def length_classes_of)

lemma val_batches_aligned:
  "val_batches B items (r, s) = Returned r' s' \<Longrightarrow> length (pd_class r) = length (gt_class r)
   \<Longrightarrow> length (pd_class r') = length (gt_class r')"
proof (induction items arbitrary: r)
  case Nil
  then show ?case by simp
next
  case (Cons it items)
  show ?case
  proof (cases it)
    case (Batch b)
    with Cons.prems(1) have "val_batches B items (accumulate B (training s) (model s) b r, s) = Returned r' s'"
      by simp
    moreover have "length (pd_class (accumulate B (training s) (model s) b r))
        = length (gt_class (accumulate B (training s) (model s) b r))"
      using Cons.prems(2) by (rule accumulate_aligned)
    ultimately show ?thesis by (rule Cons.IH)
  next
    case Raise
    with Cons.prems show ?thesis by simp
  qed
qed

lemma train_batches_aligned:
  "train_batches B i items (r, s) = Returned r' s' \<Longrightarrow> length (pd_class r) = length (gt_class r)
   \<Longrightarrow> length (pd_class r') = length (gt_class r')"
proof (induction items arbitrary: i r s)
  case Nil
  then show ?case by simp
next
  case (Cons it items)
  show ?case
  proof (cases it)
    case (Batch b)
    obtain r1 s1 where step: "train_batch B i b (r, s) = (r1, s1)"
      by (cases "train_batch B i b (r, s)")
    then have r1: "r1 = accumulate B (training s) (model s) b r"
      by (auto simp: train_batch_def Let_def split: prod.splits)
    from Cons.prems(1) Batch step have "train_batches B (i + 1) items (r1, s1) = Returned r' s'"
      by simp
    moreover have "length (pd_class r1) = length (gt_class r1)"
      unfolding r1 using Cons.prems(2) by (rule accumulate_aligned)
    ultimately show ?thesis by (rule Cons.IH)
  next
    case Raise
    with Cons.prems show ?thesis by simp
  qed
qed

lemma progress_prints_append:
  "progress_prints (xs @ ys) = progress_prints xs @ progress_prints ys"
  by (induction xs rule: progress_prints.induct) simp_all

lemma train_batch_stdout:
  assumes "train_batch B i b (r, s) = (r', s')"
  shows "progress_prints (stdout s') =
           progress_prints (stdout s) @ (if (i + 1) mod 100 = 0 then [i + 1] else [])"
    and "model s' = fst (opt_step B (model s) (optimizer s) b)"
  using assms
  by (auto simp: train_batch_def Let_def progress_prints_append split: prod.splits)

lemma train_batches_writer:
  "writer (state_of (train_batches B i items (r, s))) =
     writer s @ map (\<lambda>k. (''Train loss (iterations)'',
                          loss_item B (training s)
                            (model (state_of (train_batches B i (take k items) (r, s))))
                            (the_batch (items ! k)),
                          total_iter s + int k))
                    [0..<length (yielded items)]"
proof (induction items arbitrary: i r s)
  case Nil
  show ?case by (simp add: yielded_def)
next
  case (Cons it items)
  show ?case
  proof (cases it)
    case (Batch b)
    obtain r1 s1 where step: "train_batch B i b (r, s) = (r1, s1)"
      by (cases "train_batch B i b (r, s)")
    note f = train_batch_step [OF step]
    have y: "length (yielded (it # items)) = Suc (length (yielded items))"
      by (simp add: Batch yielded_def)
    show ?thesis
      unfolding y map_upt_Suc
      using Cons.IH [of "i + 1" r1 s1]
      by (simp add: Batch step f)
  next
    case Raise
    then show ?thesis by (simp add: yielded_def)
  qed
qed

lemma train_batches_progress:
  "progress_prints (stdout (state_of (train_batches B i items (r, s)))) =
     progress_prints (stdout s) @
     filter (\<lambda>k. k mod 100 = 0) [i + 1..<i + 1 + length (yielded items)]"
proof (induction items arbitrary: i r s)
  case Nil
  show ?case by (simp add: yielded_def)
next
  case (Cons it items)
  show ?case
  proof (cases it)
    case (Batch b)
    obtain r1 s1 where step: "train_batch B i b (r, s) = (r1, s1)"
      by (cases "train_batch B i b (r, s)")
    have y: "length (yielded (it # items)) = Suc (length (yielded items))"
      by (simp add: Batch yielded_def)
    have u: "[i + 1..<i + 1 + Suc (length (yielded items))]
               = (i + 1) # [i + 1 + 1..<i + 1 + 1 + length (yielded items)]"
      using upt_conv_Cons [of "i + 1" "i + 1 + Suc (length (yielded items))"] by simp
    show ?thesis
      unfolding y u
      using Cons.IH [of "i + 1" r1 s1]
      by (simp add: Batch step train_batch_stdout(1) [OF step])
  next
    case Raise
    then show ?thesis by (simp add: yielded_def)
  qed
qed

lemma train_epoch_tail:
  assumes "iterate B (train_loader s) = (items, l')"
  shows "\<exists>tw tout. writer (state_of (train_epoch B s))
             = writer (state_of (train_batches B 0 items (running0, s\<lparr> training := True, train_loader := l' \<rparr>))) @ tw \<and>
           stdout (state_of (train_epoch B s))
             = stdout (state_of (train_batches B 0 items (running0, s\<lparr> training := True, train_loader := l' \<rparr>))) @ tout \<and>
           progress_prints tout = []"
proof -
  let ?o = "train_batches B 0 items (running0, s\<lparr> training := True, train_loader := l' \<rparr>)"
  show ?thesis
  proof (cases ?o)
    case (Raised e s2)
    then have "writer (state_of (train_epoch B s)) = writer (state_of ?o) @ [] \<and>
           stdout (state_of (train_epoch B s)) = stdout (state_of ?o) @ [] \<and>
           progress_prints [] = []"
      by (simp add: train_epoch_def assms)
    then show ?thesis by (intro exI)
  next
    case (Returned r2 s2)
    show ?thesis
    proof (cases "train_epoch B s")
      case (Raised e s3)
      with Returned have "s3 = s2"
        by (auto simp: train_epoch_def assms split: sum.splits)
      with Raised Returned have "writer (state_of (train_epoch B s)) = writer (state_of ?o) @ [] \<and>
           stdout (state_of (train_epoch B s)) = stdout (state_of ?o) @ [] \<and>
           progress_prints [] = []"
        by simp
      then show ?thesis by (intro exI)
    next
      case Ret: (Returned u s3)
      with Returned obtain loss acc where
        "s3 = s2\<lparr> stdout := stdout s2 @ [TrainLoss loss, TrainAccuracy acc],
                  writer := writer s2 @ [(''Train loss (epochs)'', loss, training_epoch s2),
                                         (''Train CLASS accuracy'', acc, training_epoch s2)] \<rparr>"
        by (auto simp: train_epoch_def assms split: sum.splits)
      with Ret Returned have "writer (state_of (train_epoch B s)) = writer (state_of ?o) @
             [(''Train loss (epochs)'', loss, training_epoch s2),
              (''Train CLASS accuracy'', acc, training_epoch s2)] \<and>
           stdout (state_of (train_epoch B s)) = stdout (state_of ?o) @ [TrainLoss loss, TrainAccuracy acc] \<and>
           progress_prints [TrainLoss loss, TrainAccuracy acc] = []"
        by simp
      then show ?thesis by (intro exI)
    qed
  qed
qed

lemma yielded_take:
  "k \<le> length (yielded items) \<Longrightarrow> yielded (take k items) = take k items \<and> length (take k items) = k"
proof (induction items arbitrary: k)
  case Nil
  then show ?case by (simp add: yielded_def)
next
  case (Cons it items)
  show ?case
  proof (cases k)
    case 0
    then show ?thesis by (simp add: yielded_def)
  next
    case (Suc j)
    with Cons.prems have b: "is_batch it" and "j \<le> length (yielded items)"
      by (auto simp: yielded_def split: if_splits)
    from Cons.IH [OF this(2)] b Suc show ?thesis by (simp add: yielded_def)
  qed
qed

lemma after_batches_total_iter:
  "k \<le> length (yielded items) \<Longrightarrow> total_iter (after_batches B s items k) = total_iter s + int k"
  using train_batches_total_iter [of B 0 "take k items" running0 s] yielded_take [of k items]
  by (simp add: after_batches_def)

lemma class_accuracy_value:
  assumes "length pd = length gt" and "pd \<noteq> []"
  shows "class_accuracy pd gt
           = Inr (real (card {i. i < length pd \<and> pd ! i = gt ! i}) / real (length pd)) \<and>
         ((\<forall>i < length pd. pd ! i = gt ! i) \<longrightarrow> class_accuracy pd gt = Inr 1) \<and>
         ((\<forall>i < length pd. pd ! i \<noteq> gt ! i) \<longrightarrow> class_accuracy pd gt = Inr 0)"
proof -
  have v: "class_accuracy pd gt
           = Inr (real (card {i. i < length pd \<and> pd ! i = gt ! i}) / real (length pd))"
    using assms by (auto simp: class_accuracy_def matches_card)
  have a: "class_accuracy pd gt = Inr 1" if "\<forall>i < length pd. pd ! i = gt ! i"
  proof -
    from that have "{i. i < length pd \<and> pd ! i = gt ! i} = {..<length pd}" by auto
    with assms(2) show ?thesis by (simp add: v)
  qed
  have z: "class_accuracy pd gt = Inr 0" if "\<forall>i < length pd. pd ! i \<noteq> gt ! i"
  proof -
    from that have "{i. i < length pd \<and> pd ! i = gt ! i} = {}" by auto
    then show ?thesis by (simp add: v)
  qed
  from v a z show ?thesis by (intro conjI impI)
qed

lemma class_accuracy_examples:
  "class_accuracy [1, 1, 2] [1, 1, 2] = Inr 1 \<and>
   class_accuracy [0, 0, 1] [1, 1, 2] = Inr 0 \<and>
   class_accuracy [1, 0, 2] [1, 1, 2] = Inr (2 / 3)"
proof -
  have l: "length [1, 1, 2 :: int] = length [1, 1, 2 :: int]" "[1, 1, 2 :: int] \<noteq> []"
    "length [0, 0, 1 :: int] = length [1, 1, 2 :: int]" "[0, 0, 1 :: int] \<noteq> []"
    "length [1, 0, 2 :: int] = length [1, 1, 2 :: int]" "[1, 0, 2 :: int] \<noteq> []"
    by simp_all
  have all: "\<forall>i < length [1, 1, 2 :: int]. [1, 1, 2 :: int] ! i = [1, 1, 2] ! i" by simp
  have none: "\<forall>i < length [0, 0, 1 :: int]. [0, 0, 1 :: int] ! i \<noteq> [1, 1, 2] ! i"
    by (simp add: less_Suc_eq nth_Cons')
  have "{i. i < length [1, 0, 2 :: int] \<and> [1, 0, 2 :: int] ! i = [1, 1, 2] ! i} = {0, 2}"
    by (auto simp: less_Suc_eq nth_Cons' split: if_splits)
  then have c: "card {i. i < length [1, 0, 2 :: int] \<and> [1, 0, 2 :: int] ! i = [1, 1, 2] ! i} = 2"
    by (simp only:) simp
  from class_accuracy_value [OF l(1,2)] all have "class_accuracy [1, 1, 2] [1, 1, 2] = Inr 1"
    by (elim conjE) (erule mp)
  moreover from class_accuracy_value [OF l(3,4)] none have "class_accuracy [0, 0, 1] [1, 1, 2] = Inr 0"
    by (elim conjE) (erule mp)
  moreover from class_accuracy_value [OF l(5,6)] have "class_accuracy [1, 0, 2] [1, 1, 2] = Inr (2 / 3)"
    unfolding c by simp
  ultimately show ?thesis by (intro conjI)
qed

lemma returned_valueD: "returned_value x = Some a \<Longrightarrow> \<exists>s. x = Returned a s"
  by (cases x) simp_all

lemma train_batches_labels:
  assumes "train_batches B i items (r, s) = Returned r' s'"
  shows "gt_class r' = gt_class r @ concat (map (\<lambda>it. map snd (the_batch it)) items) \<and>
         pd_class r' = pd_class r @
           concat (map (\<lambda>k. classes_of B (training s)
                                (model (state_of (train_batches B i (take k items) (r, s))))
                                (the_batch (items ! k)))
                       [0..<length items])"
  using assms
proof (induction items arbitrary: i r s)
  case Nil
  then show ?case by simp
next
  case (Cons it items)
  show ?case
  proof (cases it)
    case (Batch b)
    obtain r1 s1 where step: "train_batch B i b (r, s) = (r1, s1)"
      by (cases "train_batch B i b (r, s)")
    then have r1: "r1 = accumulate B (training s) (model s) b r"
      by (auto simp: train_batch_def Let_def split: prod.splits)
    note f = train_batch_step [OF step]
    from Cons.prems Batch step have "train_batches B (i + 1) items (r1, s1) = Returned r' s'"
      by simp
    from Cons.IH [OF this] show ?thesis
      unfolding length_Cons map_upt_Suc
      by (simp add: Batch step f r1 accumulate_def)
  next
    case Raise
    with Cons.prems show ?thesis by simp
  qed
qed

lemma train_epoch_Returned:
  assumes "train_epoch B s = Returned u s'" and "iterate B (train_loader s) = (items, l')"
  shows "\<exists>r s2 loss acc.
           train_batches B 0 items (running0, s\<lparr> training := True, train_loader := l' \<rparr>) = Returned r s2 \<and>
           class_accuracy (pd_class r) (gt_class r) = Inr acc \<and>
           writer s' = writer s2 @ [(''Train loss (epochs)'', loss, training_epoch s),
                                    (''Train CLASS accuracy'', acc, training_epoch s)] \<and>
           stdout s' = stdout s2 @ [TrainLoss loss, TrainAccuracy acc]"
proof -
  let ?s1 = "s\<lparr> training := True, train_loader := l' \<rparr>"
  from assms obtain r s2 where tb: "train_batches B 0 items (running0, ?s1) = Returned r s2"
    by (auto simp: train_epoch_def split: outcome.splits)
  have te: "training_epoch s2 = training_epoch s"
    using train_batches_frame [of B 0 items running0 ?s1] tb by simp
  from assms tb obtain loss acc where
    acc: "class_accuracy (pd_class r) (gt_class r) = Inr acc"
    and s': "s' = s2\<lparr> stdout := stdout s2 @ [TrainLoss loss, TrainAccuracy acc],
                  writer := writer s2 @ [(''Train loss (epochs)'', loss, training_epoch s2),
                                         (''Train CLASS accuracy'', acc, training_epoch s2)] \<rparr>"
    by (auto simp: train_epoch_def split: sum.splits)
  have "train_batches B 0 items (running0, ?s1) = Returned r s2 \<and>
           class_accuracy (pd_class r) (gt_class r) = Inr acc \<and>
           writer s' = writer s2 @ [(''Train loss (epochs)'', loss, training_epoch s),
                                    (''Train CLASS accuracy'', acc, training_epoch s)] \<and>
           stdout s' = stdout s2 @ [TrainLoss loss, TrainAccuracy acc]"
    using tb acc by (simp add: s' te)
  then show ?thesis by (intro exI)
qed

lemma train_pass_labels:
  assumes "train_batches B 0 items (running0, s) = Returned r s2" and "training s = True"
  shows "gt_class r = pass_labels items \<and> pd_class r = train_predictions B s items"
proof -
  from assms(1) have "list_all is_batch items" using train_batches_Returned_iff by blast
  then have y: "yielded items = items" by (rule yielded_all)
  from train_batches_labels [OF assms(1)] show ?thesis
    by (simp add: pass_labels_def train_predictions_def y after_batches_def running0_def assms(2))
qed

lemma class_accuracy_Inr:
  "class_accuracy pd gt = Inr acc \<Longrightarrow> pd \<noteq> []"
  by (auto simp: class_accuracy_def split: if_splits)

lemma length_pass_labels:
  "length (pass_labels items) = sum_list (map (\<lambda>it. length (the_batch it)) (yielded items))"
  by (simp add: pass_labels_def length_concat comp_def)

lemma length_pass_predictions:
  "length (pass_predictions B mode m items) = length (pass_labels items)"
  by (simp add: pass_predictions_def pass_labels_def length_concat comp_def length_classes_of)

lemma val_pass_labels:
  "concat (map (map snd) bs) = pass_labels (map Batch bs) \<and>
   concat (map (classes_of B mode m) bs) = pass_predictions B mode m (map Batch bs)"
proof -
  have "list_all is_batch (map Batch bs)" by (simp add: list_all_iff)
  then have "yielded (map Batch bs) = map Batch bs" by (rule yielded_all)
  then show ?thesis by (simp add: pass_labels_def pass_predictions_def comp_def)
qed

lemma accuracy_cases:
  assumes "class_accuracy pd gt = Inr acc" and "length pd = length gt"
  shows "gt \<noteq> [] \<and>
         acc = real (card {i. i < length gt \<and> pd ! i = gt ! i}) / real (length gt) \<and>
         ((\<forall>i < length gt. pd ! i = gt ! i) \<longrightarrow> acc = 1) \<and>
         ((\<forall>i < length gt. pd ! i \<noteq> gt ! i) \<longrightarrow> acc = 0)"
proof -
  from assms(1) have ne: "pd \<noteq> []" by (rule class_accuracy_Inr)
  with assms(2) have g: "gt \<noteq> []" by auto
  note h = class_accuracy_value [OF assms(2) ne]
  from h [THEN conjunct1] assms(1)
  have v: "acc = real (card {i. i < length gt \<and> pd ! i = gt ! i}) / real (length gt)"
    by (simp add: assms(2))
  have a1: "acc = 1" if "\<forall>i < length gt. pd ! i = gt ! i"
  proof -
    from that have "\<forall>i < length pd. pd ! i = gt ! i" by (simp add: assms(2))
    with h [THEN conjunct2, THEN conjunct1] have "class_accuracy pd gt = Inr 1" by (rule mp)
    with assms(1) show ?thesis by simp
  qed
  have a0: "acc = 0" if "\<forall>i < length gt. pd ! i \<noteq> gt ! i"
  proof -
    from that have "\<forall>i < length pd. pd ! i \<noteq> gt ! i" by (simp add: assms(2))
    with h [THEN conjunct2, THEN conjunct2] have "class_accuracy pd gt = Inr 0" by (rule mp)
    with assms(1) show ?thesis by simp
  qed
  from g v a1 a0 show ?thesis by (intro conjI impI)
qed

section \<open>Facts about construction\<close>

lemma bind_err_Inr: "bind_err r f = Inr y \<longleftrightarrow> (\<exists>a. r = Inr a \<and> f a = Inr y)"
  by (cases r) (simp_all add: bind_err_def)

lemma init_Inr:
  assumes "init B st params = Inr t"
  shows "\<exists>m opt m' opt' ep it.
           (if truthy (get_default params ''model_path'' (PBool False))
            then load_checkpoint (get_default params ''model_path'' (PBool False)) st
            else Inr (m, opt, 0, 0)) = Inr (m', opt', ep, it) \<and>
           training_epoch t = ep \<and> total_iter t = it \<and> model t = m' \<and> optimizer t = opt' \<and>
           storage t = st"
proof -
  from assms obtain m opt r where
    r: "(if truthy (get_default params ''model_path'' (PBool False))
            then load_checkpoint (get_default params ''model_path'' (PBool False)) st
            else Inr (m, opt, 0, 0)) = Inr r"
    and t: "training_epoch t = fst (snd (snd r))" "total_iter t = snd (snd (snd r))"
       "model t = fst r" "optimizer t = fst (snd r)" "storage t = st"
    unfolding init_def Let_def
    by (auto simp: bind_err_Inr case_prod_beta split: option.splits)
  obtain m' opt' ep it where "r = (m', opt', ep, it)" by (cases r) auto
  with r t have "(if truthy (get_default params ''model_path'' (PBool False))
            then load_checkpoint (get_default params ''model_path'' (PBool False)) st
            else Inr (m, opt, 0, 0)) = Inr (m', opt', ep, it) \<and>
           training_epoch t = ep \<and> total_iter t = it \<and> model t = m' \<and> optimizer t = opt' \<and>
           storage t = st" by simp
  then show ?thesis by (intro exI)
qed

lemma load_checkpoint_Inr:
  assumes "load_checkpoint v st = Inr (m, opt, ep, it)"
  shows "\<exists>p ck. v = PStr p \<and> read_file st p = Some ck \<and> m = ck_state_dict ck \<and>
           opt = ck_optimizer ck \<and> ep = ck_epoch ck \<and> it = ck_total_iter ck"
  using assms by (auto simp: load_checkpoint_def split: pyval.splits option.splits)

lemma Inr_caseD:
  "(case x of Inl e \<Rightarrow> False | Inr t \<Rightarrow> P t) \<Longrightarrow> \<exists>t. x = Inr t \<and> P t"
  by (cases x) simp_all

section \<open>Facts about the epoch driver\<close>

lemma loop_body_Returned:
  assumes "loop_body B epoch s = Returned u s'"
  shows "training_epoch s' = training_epoch s + 1"
    and "pth_dir s' = pth_dir s"
    and "epochs s' = epochs s"
    and "total_iter s \<le> total_iter s'"
    and "\<exists>ck. storage s' = storage s @ [(ckpt_path (pth_dir s) epoch, ck)] \<and>
            ck_epoch ck = epoch \<and> ck_total_iter ck = total_iter s'"
proof -
  let ?s1 = "s\<lparr> stdout := stdout s @ [EpochBanner (training_epoch s + 1)] \<rparr>"
  obtain items l' where it: "iterate B (train_loader ?s1) = (items, l')"
    by (cases "iterate B (train_loader ?s1)")
  from assms obtain u2 s2 where te: "train_epoch B ?s1 = Returned u2 s2"
    by (auto simp: loop_body_def Let_def split: outcome.splits)
  let ?ck = "\<lparr> ck_state_dict = model s2, ck_optimizer = optimizer s2,
               ck_epoch = epoch, ck_total_iter = total_iter s2 \<rparr>"
  let ?s3 = "s2\<lparr> storage := save_checkpoint ?ck (ckpt_path (pth_dir s2) epoch) (storage s2) \<rparr>"
  from assms te obtain v s4 where va: "val B ?s3 = Returned v s4"
    and s': "s' = s4\<lparr> training_epoch := training_epoch s4 + 1 \<rparr>"
    by (auto simp: loop_body_def Let_def split: outcome.splits)
  have f2: "training_epoch s2 = training_epoch s" "storage s2 = storage s"
    "pth_dir s2 = pth_dir s" "epochs s2 = epochs s"
    "total_iter s2 = total_iter s + int (length (yielded items))"
    using train_epoch_frame [OF it] te by simp_all
  have f4: "training_epoch s4 = training_epoch s2" "total_iter s4 = total_iter s2"
    "storage s4 = storage ?s3" "pth_dir s4 = pth_dir s2" "epochs s4 = epochs s2"
    using val_frame [of B ?s3] va by simp_all
  show "training_epoch s' = training_epoch s + 1" by (simp add: s' f4 f2)
  show "pth_dir s' = pth_dir s" by (simp add: s' f4 f2)
  show "epochs s' = epochs s" by (simp add: s' f4 f2)
  show "total_iter s \<le> total_iter s'" by (simp add: s' f4 f2)
  have "storage s' = storage s @ [(ckpt_path (pth_dir s) epoch, ?ck)]"
    by (simp add: s' f4 f2 save_checkpoint_def)
  moreover have "ck_epoch ?ck = epoch \<and> ck_total_iter ?ck = total_iter s'"
    by (simp add: s' f4)
  ultimately have "storage s' = storage s @ [(ckpt_path (pth_dir s) epoch, ?ck)] \<and>
            ck_epoch ?ck = epoch \<and> ck_total_iter ?ck = total_iter s'" by simp
  then show "\<exists>ck. storage s' = storage s @ [(ckpt_path (pth_dir s) epoch, ck)] \<and>
            ck_epoch ck = epoch \<and> ck_total_iter ck = total_iter s'"
    by (rule exI)
qed

lemma loop_body_train_Raised:
  assumes "train_epoch B (s\<lparr> stdout := stdout s @ [EpochBanner (training_epoch s + 1)] \<rparr>) = Raised e s2"
  shows "loop_body B epoch s = Raised e s2" "training_epoch s2 = training_epoch s"
    "storage s2 = storage s"
proof -
  let ?s1 = "s\<lparr> stdout := stdout s @ [EpochBanner (training_epoch s + 1)] \<rparr>"
  obtain items l' where it: "iterate B (train_loader ?s1) = (items, l')"
    by (cases "iterate B (train_loader ?s1)")
  show "loop_body B epoch s = Raised e s2" using assms by (simp add: loop_body_def)
  show "training_epoch s2 = training_epoch s" "storage s2 = storage s"
    using train_epoch_frame [OF it] assms by simp_all
qed

lemma loop_epochs_append:
  "loop_epochs B (xs @ ys) s =
     (case loop_epochs B xs s of Raised e s' \<Rightarrow> Raised e s' | Returned u s' \<Rightarrow> loop_epochs B ys s')"
  by (induction xs arbitrary: s) (simp_all split: outcome.splits)

lemma loop_epochs_Returned:
  assumes "loop_epochs B es s = Returned u s'"
  shows "training_epoch s' = training_epoch s + int (length es) \<and>
         pth_dir s' = pth_dir s \<and> epochs s' = epochs s \<and> total_iter s \<le> total_iter s' \<and>
         (\<exists>new. storage s' = storage s @ new \<and>
                 map fst new = map (ckpt_path (pth_dir s)) es \<and>
                 map (\<lambda>(p, ck). ck_epoch ck) new = es)"
  using assms
proof (induction es arbitrary: s)
  case Nil
  then show ?case by simp
next
  case (Cons e es)
  from Cons.prems obtain u1 s1 where b: "loop_body B e s = Returned u1 s1"
    and r: "loop_epochs B es s1 = Returned u s'"
    by (auto split: outcome.splits)
  note h = loop_body_Returned [OF b]
  from h(5) obtain ck where ck: "storage s1 = storage s @ [(ckpt_path (pth_dir s) e, ck)]"
    "ck_epoch ck = e" by blast
  from Cons.IH [OF r] obtain new where new: "storage s' = storage s1 @ new"
    "map fst new = map (ckpt_path (pth_dir s1)) es" "map (\<lambda>(p, ck). ck_epoch ck) new = es"
    and rest: "training_epoch s' = training_epoch s1 + int (length es)"
      "pth_dir s' = pth_dir s1" "epochs s' = epochs s1" "total_iter s1 \<le> total_iter s'"
    by blast
  let ?new = "(ckpt_path (pth_dir s) e, ck) # new"
  have "storage s' = storage s @ ?new \<and>
        map fst ?new = map (ckpt_path (pth_dir s)) (e # es) \<and>
        map (\<lambda>(p, ck). ck_epoch ck) ?new = e # es"
    by (simp add: new ck h)
  then have "\<exists>new. storage s' = storage s @ new \<and>
                 map fst new = map (ckpt_path (pth_dir s)) (e # es) \<and>
                 map (\<lambda>(p, ck). ck_epoch ck) new = e # es" by (rule exI)
  moreover have "training_epoch s' = training_epoch s + int (length (e # es))"
    by (simp add: rest h)
  moreover have "pth_dir s' = pth_dir s" "epochs s' = epochs s" "total_iter s \<le> total_iter s'"
    using rest h by simp_all
  ultimately show ?case by blast
qed

text \<open>
  The step counter never decreases over the epoch driver, however it ends. A trainer
  built from the checkpoint that an iteration of the driver has written starts at the
  epoch index of that iteration, not at the one after it.
\<close>

lemma loop_body_total_iter_mono: "total_iter s \<le> total_iter (state_of (loop_body B epoch s))"
proof -
  let ?s1 = "s\<lparr> stdout := stdout s @ [EpochBanner (training_epoch s + 1)] \<rparr>"
  obtain items l' where it: "iterate B (train_loader ?s1) = (items, l')"
    by (cases "iterate B (train_loader ?s1)")
  have t: "total_iter s \<le> total_iter (state_of (train_epoch B ?s1))"
    using train_epoch_frame [OF it] by simp
  show ?thesis
  proof (cases "train_epoch B ?s1")
    case (Raised e s2)
    with t show ?thesis by (simp add: loop_body_def)
  next
    case (Returned u s2)
    let ?ck = "\<lparr> ck_state_dict = model s2, ck_optimizer = optimizer s2,
               ck_epoch = epoch, ck_total_iter = total_iter s2 \<rparr>"
    let ?s3 = "s2\<lparr> storage := save_checkpoint ?ck (ckpt_path (pth_dir s2) epoch) (storage s2) \<rparr>"
    have v: "total_iter (state_of (val B ?s3)) = total_iter s2"
      using val_frame [of B ?s3] by simp
    from t Returned have "total_iter s \<le> total_iter s2" by simp
    with v Returned show ?thesis
      by (cases "val B ?s3") (simp_all add: loop_body_def Let_def)
  qed
qed

lemma loop_epochs_total_iter_mono: "total_iter s \<le> total_iter (state_of (loop_epochs B es s))"
proof (induction es arbitrary: s)
  case Nil
  show ?case by simp
next
  case (Cons e es)
  show ?case
  proof (cases "loop_body B e s")
    case (Raised err s1)
    with loop_body_total_iter_mono [of s B e] show ?thesis by simp
  next
    case (Returned u s1)
    with loop_body_total_iter_mono [of s B e] have "total_iter s \<le> total_iter s1" by simp
    also have "\<dots> \<le> total_iter (state_of (loop_epochs B es s1))" by (rule Cons.IH)
    finally show ?thesis using Returned by simp
  qed
qed

lemma loop_total_iter_mono: "total_iter s \<le> total_iter (state_of (loop B s))"
  using loop_epochs_total_iter_mono [of s B]
  by (cases "as_index (epochs s)") (simp_all add: loop_def)

lemma read_file_last: "read_file (st @ [(p, ck)]) p = Some ck"
  by (simp add: read_file_def)

lemma saved_epoch_is_resume_point:
  assumes "loop_body B e s = Returned u s'"
    and "params ''model_path'' = Some (PStr (ckpt_path (pth_dir s) e))"
    and "init B' (storage s') params = Inr t"
  shows "training_epoch t = e \<and> total_iter t = total_iter s' \<and> training_epoch s' = training_epoch s + 1"
proof -
  from loop_body_Returned(5) [OF assms(1)] obtain ck where
    st: "storage s' = storage s @ [(ckpt_path (pth_dir s) e, ck)]"
    and ck: "ck_epoch ck = e" "ck_total_iter ck = total_iter s'"
    by (elim exE conjE)
  have rf: "read_file (storage s') (ckpt_path (pth_dir s) e) = Some ck"
    by (simp add: st read_file_last)
  have ne: "ckpt_path (pth_dir s) e \<noteq> []"
    using ckpt_name_not_abs [of e] by (simp add: ckpt_path_eq)
  from init_Inr [OF assms(3)] obtain m opt m' opt' ep it where
    l: "(if truthy (get_default params ''model_path'' (PBool False))
            then load_checkpoint (get_default params ''model_path'' (PBool False)) (storage s')
            else Inr (m, opt, 0, 0)) = Inr (m', opt', ep, it)"
    and c: "training_epoch t = ep" "total_iter t = it"
    by (elim exE conjE)
  from l assms(2) ne rf have "ep = ck_epoch ck \<and> it = ck_total_iter ck"
    by (simp add: get_default_def load_checkpoint_def)
  with c ck loop_body_Returned(1) [OF assms(1)] show ?thesis by simp
qed

section \<open>The epoch driver with nothing left to do\<close>

text \<open>
  C9. If on entry to \<open>loop\<close> the epoch counter has reached the configured epoch
  count, \<open>loop\<close> returns at once and the trainer is exactly as before: no pass has
  run (loaders, scalar log and output are untouched), no checkpoint has been
  written, and \<open>training_epoch\<close> and \<open>total_iter\<close> are unchanged.
\<close>

theorem loop_nothing_left:
  assumes "epochs s = PInt e1" and "e1 \<le> training_epoch s"
  shows "loop B s = Returned () s"
  using assms by (simp add: loop_def)

theorem loop_nothing_left_witness:
  "loop toy (toy_trainer 2 6 (PInt 2) (toy_dataset (PStr ''train.json'')) (toy_dataset (PStr ''val.json'')) [])
     = Returned () (toy_trainer 2 6 (PInt 2) (toy_dataset (PStr ''train.json'')) (toy_dataset (PStr ''val.json'')) [])"
  using loop_nothing_left [of "toy_trainer 2 6 (PInt 2) (toy_dataset (PStr ''train.json'')) (toy_dataset (PStr ''val.json'')) []" 2 toy]
  by (simp add: toy_trainer_def)

section \<open>Checkpoints written by a complete run of the epoch driver\<close>

text \<open>
  C2. Let \<open>loop\<close> start with \<open>training_epoch = e0\<close> and \<open>epochs = e1\<close>, \<open>e0 < e1\<close>, and
  return, that is, every pass completes. Then \<open>training_epoch\<close> is \<open>e1\<close> at the end, and the
  run has added exactly \<open>e1 - e0\<close> checkpoint writes to the storage, in epoch order, one
  for each index \<open>e0, \<dots>, e1 - 1\<close>: the write for epoch \<open>e\<close> stores the epoch index \<open>e\<close> and
  goes to the checkpoint directory under the name \<open>"{:0>8}.pth".format(e)\<close>, and the paths
  are pairwise different, so these are \<open>e1 - e0\<close> files. The stem of the name is the
  decimal text of \<open>e\<close> with zeros put in front up to a width of eight, so it has at
  least eight characters and determines \<open>e\<close>. It has exactly eight characters, all
  decimal digits, reading as the number \<open>e\<close>, when \<open>0 \<le> e < 10^8\<close>; a longer or a
  negative index is written out in full.
\<close>

theorem loop_checkpoints:
  assumes "epochs s = PInt e1" and "training_epoch s = e0" and "e0 < e1"
    and "loop B s = Returned u s'"
  shows "training_epoch s' = e1 \<and>
         (\<exists>new. storage s' = storage s @ new \<and>
                length new = nat (e1 - e0) \<and>
                map fst new = map (\<lambda>e. osp_join (pth_dir s) (format_0gt8 (str_int e) @ ''.pth'')) [e0..e1 - 1] \<and>
                map (\<lambda>(p, ck). ck_epoch ck) new = [e0..e1 - 1] \<and>
                distinct (map fst new)) \<and>
         (0 \<le> e0 \<and> e1 \<le> 10 ^ 8 \<longrightarrow>
            list_all (\<lambda>e. length (format_0gt8 (str_int e)) = 8 \<and>
                          list_all is_digit (format_0gt8 (str_int e)) \<and>
                          int (nat_of_str (format_0gt8 (str_int e))) = e) [e0..e1 - 1]) \<and>
         list_all (\<lambda>e. format_0gt8 (str_int e)
                         = replicate (8 - length (str_int e)) (CHR ''0'') @ str_int e \<and>
                       8 \<le> length (format_0gt8 (str_int e)) \<and>
                       epoch_of_stem (format_0gt8 (str_int e)) = e) [e0..e1 - 1]"
proof -
  from assms have le: "loop_epochs B [e0..e1 - 1] s = Returned u s'"
    by (simp add: loop_def)
  from loop_epochs_Returned [OF le] obtain new where new: "storage s' = storage s @ new"
    "map fst new = map (ckpt_path (pth_dir s)) [e0..e1 - 1]"
    "map (\<lambda>(p, ck). ck_epoch ck) new = [e0..e1 - 1]"
    and te: "training_epoch s' = training_epoch s + int (length [e0..e1 - 1])"
    by blast
  from te assms have c1: "training_epoch s' = e1" by simp
  have "length new = length (map fst new)" by simp
  also have "\<dots> = nat (e1 - e0)" using assms(3) by (simp add: new(2))
  finally have len: "length new = nat (e1 - e0)" .
  have "inj_on (ckpt_path (pth_dir s)) (set [e0..e1 - 1])"
    using inj_ckpt_path [of "pth_dir s"] by (rule inj_on_subset) simp
  then have dist: "distinct (map fst new)" by (simp add: new(2) distinct_map)
  have names: "map fst new = map (\<lambda>e. osp_join (pth_dir s) (format_0gt8 (str_int e) @ ''.pth'')) [e0..e1 - 1]"
    by (simp add: new(2) ckpt_path_def ckpt_name_def)
  have c2: "\<exists>new. storage s' = storage s @ new \<and>
                length new = nat (e1 - e0) \<and>
                map fst new = map (\<lambda>e. osp_join (pth_dir s) (format_0gt8 (str_int e) @ ''.pth'')) [e0..e1 - 1] \<and>
                map (\<lambda>(p, ck). ck_epoch ck) new = [e0..e1 - 1] \<and>
                distinct (map fst new)"
    using new(1) len names new(3) dist by (intro exI [of _ new] conjI)
  have c3: "0 \<le> e0 \<and> e1 \<le> 10 ^ 8 \<longrightarrow>
            list_all (\<lambda>e. length (format_0gt8 (str_int e)) = 8 \<and>
                          list_all is_digit (format_0gt8 (str_int e)) \<and>
                          int (nat_of_str (format_0gt8 (str_int e))) = e) [e0..e1 - 1]"
  proof
    assume b: "0 \<le> e0 \<and> e1 \<le> 10 ^ 8"
    have "\<forall>e \<in> set [e0..e1 - 1]. length (format_0gt8 (str_int e)) = 8 \<and>
                          list_all is_digit (format_0gt8 (str_int e)) \<and>
                          int (nat_of_str (format_0gt8 (str_int e))) = e"
    proof
      fix e assume "e \<in> set [e0..e1 - 1]"
      with b have "0 \<le> e" "e < 10 ^ 8" by auto
      then show "length (format_0gt8 (str_int e)) = 8 \<and>
                          list_all is_digit (format_0gt8 (str_int e)) \<and>
                          int (nat_of_str (format_0gt8 (str_int e))) = e"
        by (rule ckpt_name_eight_digits)
    qed
    then show "list_all (\<lambda>e. length (format_0gt8 (str_int e)) = 8 \<and>
                          list_all is_digit (format_0gt8 (str_int e)) \<and>
                          int (nat_of_str (format_0gt8 (str_int e))) = e) [e0..e1 - 1]"
      by (simp add: list_all_iff)
  qed
  have c4: "list_all (\<lambda>e. format_0gt8 (str_int e)
                         = replicate (8 - length (str_int e)) (CHR ''0'') @ str_int e \<and>
                       8 \<le> length (format_0gt8 (str_int e)) \<and>
                       epoch_of_stem (format_0gt8 (str_int e)) = e) [e0..e1 - 1]"
  proof -
    have "8 \<le> length (format_0gt8 t)" for t
      by (simp add: format_0gt8_def)
    then show ?thesis
      by (simp add: list_all_iff epoch_of_stem_format) (simp add: format_0gt8_def)
  qed
  from c1 c2 c3 c4 show ?thesis by (intro conjI)
qed

lemma toy_loop_returns:
  "(case loop toy (toy_trainer 0 0 (PInt 2) (toy_dataset (PStr ''train.json'')) (toy_dataset (PStr ''val.json'')) []) of Returned u s \<Rightarrow> True | Raised e s \<Rightarrow> False)"
  by code_simp

theorem loop_checkpoints_witness:
  "\<exists>s'. loop toy (toy_trainer 0 0 (PInt 2) (toy_dataset (PStr ''train.json'')) (toy_dataset (PStr ''val.json'')) []) = Returned () s' \<and>
        training_epoch s' = 2 \<and>
        map fst (storage s') = [''d/e/checkpoints/00000000.pth'', ''d/e/checkpoints/00000001.pth''] \<and>
        map (\<lambda>(p, ck). ck_epoch ck) (storage s') = [0, 1]"
proof -
  let ?t = "toy_trainer 0 0 (PInt 2) (toy_dataset (PStr ''train.json'')) (toy_dataset (PStr ''val.json'')) []"
  from toy_loop_returns obtain s' where r: "loop toy ?t = Returned () s'"
    by (cases "loop toy ?t") auto
  have h1: "epochs ?t = PInt 2" and h2: "training_epoch ?t = 0" and h3: "(0::int) < 2"
    and st: "storage ?t = []" and pd: "pth_dir ?t = ''d/e/checkpoints''"
    by (simp_all add: toy_trainer_def)
  have up: "[0..1] = [0, 1::int]" by code_simp
  have n0: "osp_join ''d/e/checkpoints'' (format_0gt8 (str_int 0) @ ''.pth'') = ''d/e/checkpoints/00000000.pth''"
    by code_simp
  have n1: "osp_join ''d/e/checkpoints'' (format_0gt8 (str_int 1) @ ''.pth'') = ''d/e/checkpoints/00000001.pth''"
    by code_simp
  note h = loop_checkpoints [OF h1 h2 h3 r]
  from h [THEN conjunct1] have a: "training_epoch s' = 2" .
  from h [THEN conjunct2, THEN conjunct1]
  have b: "map fst (storage s') = [''d/e/checkpoints/00000000.pth'', ''d/e/checkpoints/00000001.pth''] \<and>
        map (\<lambda>(p, ck). ck_epoch ck) (storage s') = [0, 1]"
    by (auto simp: st pd up n0 n1)
  from r a b have k: "loop toy ?t = Returned () s' \<and> training_epoch s' = 2 \<and>
        map fst (storage s') = [''d/e/checkpoints/00000000.pth'', ''d/e/checkpoints/00000001.pth''] \<and>
        map (\<lambda>(p, ck). ck_epoch ck) (storage s') = [0, 1]"
    by (intro conjI) simp_all
  show ?thesis by (rule exI [where x = s']) (rule k)
qed

text \<open>
  The name is not always eight digits: the epoch with index \<open>10^8\<close> is saved under a
  stem of nine digits, and the epoch with index \<open>-1\<close> under a stem with a sign in it.
\<close>

lemma toy_one_epoch:
  "returned_value (loop toy (toy_trainer e 0 (PInt (e + 1))
       (toy_dataset (PStr ''train.json'')) (toy_dataset (PStr ''val.json'')) [])) = Some () \<and>
   map fst (storage (state_of (loop toy (toy_trainer e 0 (PInt (e + 1))
       (toy_dataset (PStr ''train.json'')) (toy_dataset (PStr ''val.json'')) []))))
     = [ckpt_path ''d/e/checkpoints'' e]"
  by (simp add: loop_def loop_body_def train_epoch_def val_def toy_def toy_trainer_def
      toy_dataset_def toy_iterate_def toy_pass_def train_batch_def accumulate_def classes_of_def
      mean_loss_def class_accuracy_def matches_def running0_def save_checkpoint_def Let_def)

lemma digit_chars: "digit_char 0 = CHR ''0''" "digit_char (Suc 0) = CHR ''1''"
  by code_simp+

lemma str_nat_big: "str_nat 100000000 = ''100000000''"
  by (simp add: str_nat.simps digit_chars)

lemma big_name: "ckpt_path ''d/e/checkpoints'' 100000000 = ''d/e/checkpoints/100000000.pth''"
  by (simp add: ckpt_path_def ckpt_name_def osp_join_def format_0gt8_def str_int_def str_nat_big)


lemma small_name: "ckpt_path ''d/e/checkpoints'' (- 1) = ''d/e/checkpoints/000000-1.pth''"
  by code_simp

theorem loop_checkpoints_counterexample:
  "returned_value (loop toy (toy_trainer 100000000 0 (PInt 100000001)
       (toy_dataset (PStr ''train.json'')) (toy_dataset (PStr ''val.json'')) [])) = Some () \<and>
   map fst (storage (state_of (loop toy (toy_trainer 100000000 0 (PInt 100000001)
       (toy_dataset (PStr ''train.json'')) (toy_dataset (PStr ''val.json'')) []))))
     = [''d/e/checkpoints/100000000.pth''] \<and>
   length ''100000000'' = 9 \<and>
   returned_value (loop toy (toy_trainer (- 1) 0 (PInt 0)
       (toy_dataset (PStr ''train.json'')) (toy_dataset (PStr ''val.json'')) [])) = Some () \<and>
   map fst (storage (state_of (loop toy (toy_trainer (- 1) 0 (PInt 0)
       (toy_dataset (PStr ''train.json'')) (toy_dataset (PStr ''val.json'')) []))))
     = [''d/e/checkpoints/000000-1.pth''] \<and>
   list_all is_digit ''000000-1'' = False"
proof -
  have "list_all is_digit ''000000-1'' = False"
    using not_digit_minus by simp
  moreover have "length ''100000000'' = 9" by simp
  moreover have e: "(100000000 :: int) + 1 = 100000001" "(- 1 :: int) + 1 = 0" by simp_all
  ultimately show ?thesis
    using toy_one_epoch [of 100000000, unfolded e] toy_one_epoch [of "- 1", unfolded e]
    by (simp only: big_name small_name simp_thms)
qed

section \<open>The global step counter over one training pass\<close>

text \<open>
  C4. When a call of \<open>train_epoch\<close> returns, everything the train iterator yielded in
  that pass was a batch, and \<open>total_iter\<close> has grown by exactly the number of batches
  yielded.
\<close>

theorem train_epoch_counts_batches:
  assumes "train_epoch B s = Returned u s'" and "iterate B (train_loader s) = (items, l')"
  shows "list_all is_batch items \<and> total_iter s' = total_iter s + int (length items)"
proof -
  from assms have all: "list_all is_batch items" by (rule train_epoch_Returned_batches)
  from train_epoch_frame [OF assms(2)] assms(1)
  have "total_iter s' = total_iter s + int (length (yielded items))" by simp
  with all show ?thesis by (simp add: yielded_all)
qed

lemma toy_train_epoch_returns:
  "(case train_epoch toy (toy_trainer 0 0 (PInt 2) (toy_dataset (PStr ''train.json'')) (toy_dataset (PStr ''val.json'')) [])
      of Returned u s \<Rightarrow> True | Raised e s \<Rightarrow> False)"
  by code_simp

theorem train_epoch_counts_batches_witness:
  "\<exists>s'. train_epoch toy (toy_trainer 0 0 (PInt 2) (toy_dataset (PStr ''train.json'')) (toy_dataset (PStr ''val.json'')) [])
          = Returned () s' \<and> total_iter s' = 2"
proof -
  let ?t = "toy_trainer 0 0 (PInt 2) (toy_dataset (PStr ''train.json'')) (toy_dataset (PStr ''val.json'')) []"
  from toy_train_epoch_returns obtain s' where r: "train_epoch toy ?t = Returned () s'"
    by (cases "train_epoch toy ?t") auto
  have it: "iterate toy (train_loader ?t) = (toy_pass, (2, [toy_pass, toy_pass]))"
    by (simp add: toy_def toy_trainer_def toy_iterate_def toy_dataset_def)
  have "length toy_pass = 2" by (simp add: toy_pass_def)
  moreover have "total_iter ?t = 0" by (simp add: toy_trainer_def)
  ultimately have "train_epoch toy ?t = Returned () s' \<and> total_iter s' = 2"
    using train_epoch_counts_batches [OF r it] by (simp add: r)
  then show ?thesis by (rule exI)
qed

section \<open>A loader that yields nothing\<close>

text \<open>
  C10. If the loader of a pass yields no batch at all, \<open>train_epoch\<close> and \<open>val\<close> raise
  \<open>ZeroDivisionError\<close> when they reduce the metrics, whatever length the loader
  reports: either the loss sum is divided by a length of zero, or the match count is
  divided by zero examples. Nothing is printed or logged for the pass. So a mean loss
  and an accuracy are reported only for a pass with at least one batch.
\<close>

theorem empty_loader_raises:
  "(iterate B (train_loader s) = ([], l') \<longrightarrow>
      train_epoch B s = Raised ZeroDivisionError (s\<lparr> training := True, train_loader := l' \<rparr>)) \<and>
   (iterate B (val_loader s) = ([], l'') \<longrightarrow>
      val B s = Raised ZeroDivisionError (s\<lparr> training := False, val_loader := l'' \<rparr>))"
  by (simp add: train_epoch_def val_def mean_loss_def class_accuracy_def running0_def)

theorem empty_loader_raises_witness:
  "train_epoch toy (toy_trainer 0 0 (PInt 2) (0, [[]]) (1, [[]]) [])
     = Raised ZeroDivisionError
         ((toy_trainer 0 0 (PInt 2) (0, [[]]) (1, [[]]) [])\<lparr> training := True, train_loader := (0, []) \<rparr>) \<and>
   val toy (toy_trainer 0 0 (PInt 2) (0, [[]]) (1, [[]]) [])
     = Raised ZeroDivisionError
         ((toy_trainer 0 0 (PInt 2) (0, [[]]) (1, [[]]) [])\<lparr> training := False, val_loader := (1, []) \<rparr>)"
proof -
  let ?t = "toy_trainer 0 0 (PInt 2) (0, [[]]) (1, [[]]) []"
  have a: "iterate toy (train_loader ?t) = ([], (0, []))"
    and b: "iterate toy (val_loader ?t) = ([], (1, []))"
    by (simp_all add: toy_def toy_trainer_def toy_iterate_def)
  from empty_loader_raises [of toy ?t "(0, [])" "(1, [])"] a b show ?thesis by simp
qed


section \<open>What a validation pass returns and leaves alone\<close>

text \<open>
  C8. When \<open>val\<close> returns, everything the validation iterator yielded was a batch and
  the returned value is the sum of the per-batch losses, taken in evaluation mode with
  the model as it was on entry, divided by \<open>len(self.val_loader)\<close>. This is the mean
  validation loss whenever that length is the number of batches the loader yields. The
  pass takes no optimizer step: model and optimizer state are as on entry, and so are
  \<open>total_iter\<close>, \<open>training_epoch\<close> and the checkpoint storage. The accuracy is written to
  the scalar log, after the loss and against the current epoch index, and is not part
  of the returned value.
\<close>

theorem val_returns_mean_loss:
  assumes "val B s = Returned v s'" and "iterate B (val_loader s) = (items, l')"
  shows "\<exists>bs acc. items = map Batch bs \<and>
           v = sum_list (map (loss_item B False (model s)) bs) / real (loader_len B l') \<and>
           (loader_len B l' = length bs \<longrightarrow>
              v = sum_list (map (loss_item B False (model s)) bs) / real (length bs)) \<and>
           model s' = model s \<and> optimizer s' = optimizer s \<and>
           total_iter s' = total_iter s \<and> training_epoch s' = training_epoch s \<and>
           storage s' = storage s \<and>
           writer s' = writer s @ [(''Validation loss'', v, training_epoch s),
                                   (''Validation CLASS accuracy'', acc, training_epoch s)] \<and>
           class_accuracy (concat (map (classes_of B False (model s)) bs))
                          (concat (map (map snd) bs)) = Inr acc"
proof -
  from val_Returned [OF assms] show ?thesis
  proof (elim exE conjE)
    fix bs acc
    assume bs: "items = map Batch bs"
      and len: "loader_len B l' \<noteq> 0"
      and v: "v = sum_list (map (loss_item B False (model s)) bs) / real (loader_len B l')"
      and acc: "class_accuracy (concat (map (classes_of B False (model s)) bs))
                (concat (map (map snd) bs)) = Inr acc"
      and s': "s' = s\<lparr> training := False, val_loader := l',
                   stdout := stdout s @ [ValidationLoss v, ValidationAccuracy acc],
                   writer := writer s @ [(''Validation loss'', v, training_epoch s),
                                         (''Validation CLASS accuracy'', acc, training_epoch s)] \<rparr>"
    have "items = map Batch bs \<and>
           v = sum_list (map (loss_item B False (model s)) bs) / real (loader_len B l') \<and>
           (loader_len B l' = length bs \<longrightarrow>
              v = sum_list (map (loss_item B False (model s)) bs) / real (length bs)) \<and>
           model s' = model s \<and> optimizer s' = optimizer s \<and>
           total_iter s' = total_iter s \<and> training_epoch s' = training_epoch s \<and>
           storage s' = storage s \<and>
           writer s' = writer s @ [(''Validation loss'', v, training_epoch s),
                                   (''Validation CLASS accuracy'', acc, training_epoch s)] \<and>
           class_accuracy (concat (map (classes_of B False (model s)) bs))
                          (concat (map (map snd) bs)) = Inr acc"
      using bs v acc by (simp add: s')
    then show ?thesis by (intro exI)
  qed
qed


lemma toy_val_returns:
  "(case val toy (toy_trainer 1 2 (PInt 2) (toy_dataset (PStr ''train.json'')) (2, [toy_pass]) [])
      of Returned v s \<Rightarrow> v = 1 / 2 | Raised e s \<Rightarrow> False)"
  by code_simp

theorem val_returns_mean_loss_witness:
  "\<exists>s' acc. val toy (toy_trainer 1 2 (PInt 2) (toy_dataset (PStr ''train.json'')) (2, [toy_pass]) [])
          = Returned (1 / 2) s' \<and>
        model s' = 0 \<and> optimizer s' = 0 \<and> total_iter s' = 2 \<and> training_epoch s' = 1 \<and>
        writer s' = [(''Validation loss'', 1 / 2, 1), (''Validation CLASS accuracy'', acc, 1)]"
proof -
  let ?t = "toy_trainer 1 2 (PInt 2) (toy_dataset (PStr ''train.json'')) (2, [toy_pass]) []"
  from toy_val_returns obtain s' where r: "val toy ?t = Returned (1 / 2) s'"
    by (cases "val toy ?t") simp_all
  have it: "iterate toy (val_loader ?t) = (toy_pass, (2, []))"
    by (simp add: toy_def toy_trainer_def toy_iterate_def)
  have f: "model ?t = 0" "optimizer ?t = 0" "total_iter ?t = 2" "training_epoch ?t = 1" "writer ?t = []"
    by (simp_all add: toy_trainer_def)
  note h = val_returns_mean_loss [OF r it]
  from h obtain bs acc where
    g: "model s' = model ?t" "optimizer s' = optimizer ?t" "total_iter s' = total_iter ?t"
    "training_epoch s' = training_epoch ?t"
    "writer s' = writer ?t @ [(''Validation loss'', 1 / 2, training_epoch ?t),
                                   (''Validation CLASS accuracy'', acc, training_epoch ?t)]"
    by (elim exE conjE)
  have k: "model s' = 0 \<and> optimizer s' = 0 \<and> total_iter s' = 2 \<and> training_epoch s' = 1 \<and>
        writer s' = [(''Validation loss'', 1 / 2, 1), (''Validation CLASS accuracy'', acc, 1)]"
    using g f by simp
  from r k have "val toy ?t = Returned (1 / 2) s' \<and>
        model s' = 0 \<and> optimizer s' = 0 \<and> total_iter s' = 2 \<and> training_epoch s' = 1 \<and>
        writer s' = [(''Validation loss'', 1 / 2, 1), (''Validation CLASS accuracy'', acc, 1)]"
    by (rule conjI)
  then show ?thesis by (intro exI)
qed

text \<open>
  The divisor is the reported length, not the count of batches: a loader that reports
  four batches and yields two, each with loss \<open>1/2\<close>, makes \<open>val\<close> return \<open>1/4\<close>, while the
  mean over the batches is \<open>1/2\<close>.
\<close>

theorem val_returns_mean_loss_counterexample:
  "returned_value (val toy (toy_trainer 0 0 (PInt 1) (toy_dataset (PStr ''train.json''))
       (4, [toy_pass]) [])) = Some (1 / 4) \<and>
   fst (iterate toy (val_loader (toy_trainer 0 0 (PInt 1) (toy_dataset (PStr ''train.json''))
       (4, [toy_pass]) []))) = toy_pass \<and>
   length toy_pass = 2 \<and>
   sum_list (map (loss_item toy False 0) (map the_batch toy_pass)) / real (length toy_pass) = 1 / 2"
  by code_simp

section \<open>A train iterator that raises inside the epoch driver\<close>

text \<open>
  C6. Let \<open>loop\<close> be entered with an integer epoch count \<open>e1\<close>, let the iterations of
  its \<open>for\<close> loop for the epochs before \<open>e\<close> complete and lead to the trainer \<open>sk\<close>, and
  let the train iterator raise during epoch \<open>e\<close>: what it yields in \<open>sk\<close> is not batches
  only. Then \<open>loop\<close> ends by raising the iterator's fault to its caller, with
  \<open>training_epoch\<close> still equal to \<open>e\<close>, so not incremented for that epoch, and with the
  storage as it was when epoch \<open>e\<close> began: nothing has been written for epoch \<open>e\<close>, and
  no write of this run went to the path of epoch \<open>e\<close>'s checkpoint. No later epoch is
  tried.
\<close>

theorem loop_train_fault:
  assumes "epochs s = PInt e1" and "training_epoch s \<le> e" and "e < e1"
    and "loop_epochs B [training_epoch s..e - 1] s = Returned u sk"
    and "iterate B (train_loader sk) = (items, l')" and "\<not> list_all is_batch items"
  shows "\<exists>s'. loop B s = Raised LoaderFault s' \<and> training_epoch s' = e \<and>
              storage s' = storage sk \<and>
              ckpt_path (pth_dir s) e \<notin> fst ` set (drop (length (storage s)) (storage s'))"
proof -
  let ?a = "training_epoch s"
  let ?b = "sk\<lparr> stdout := stdout sk @ [EpochBanner (training_epoch sk + 1)] \<rparr>"
  have "[?a..e1 - 1] = [?a..e - 1] @ [e..e1 - 1]"
    using assms(2,3) by (intro upto_split1) simp_all
  moreover have "[e..e1 - 1] = e # [e + 1..e1 - 1]"
    using assms(3) by (intro upto_rec1) simp
  ultimately have split: "[?a..e1 - 1] = [?a..e - 1] @ e # [e + 1..e1 - 1]"
    by (simp only:)
  from loop_epochs_Returned [OF assms(4)] obtain new where
    te: "training_epoch sk = ?a + int (length [?a..e - 1])" and pd: "pth_dir sk = pth_dir s"
    and new: "storage sk = storage s @ new" "map fst new = map (ckpt_path (pth_dir s)) [?a..e - 1]"
    by (elim exE conjE)
  from te assms(2) have tk: "training_epoch sk = e" by simp
  have "iterate B (train_loader ?b) = (items, l')" using assms(5) by simp
  from train_epoch_fault [OF this assms(6)] obtain s' where
    tr: "train_epoch B ?b = Raised LoaderFault s'" by (elim exE)
  note body = loop_body_train_Raised [OF tr]
  have run: "loop B s = Raised LoaderFault s'"
    using assms(1,4) body(1) [of e] by (simp add: loop_def split loop_epochs_append)
  have "ckpt_path (pth_dir s) e \<notin> set (map fst new)"
  proof
    assume "ckpt_path (pth_dir s) e \<in> set (map fst new)"
    then obtain e' where "e' \<in> set [?a..e - 1]" "ckpt_path (pth_dir s) e = ckpt_path (pth_dir s) e'"
      by (auto simp: new(2))
    then have "e = e'" and "e' < e" by (auto dest: ckpt_path_inj)
    then show False by simp
  qed
  then have fresh: "ckpt_path (pth_dir s) e \<notin> fst ` set (drop (length (storage s)) (storage s'))"
    by (simp add: body(3) new(1))
  have "loop B s = Raised LoaderFault s' \<and> training_epoch s' = e \<and>
              storage s' = storage sk \<and>
              ckpt_path (pth_dir s) e \<notin> fst ` set (drop (length (storage s)) (storage s'))"
    using run body(2,3) tk fresh by (intro conjI) simp_all
  then show ?thesis by (rule exI)
qed

lemma toy_flaky_first_epoch:
  "(case loop_epochs toy
           [training_epoch (toy_trainer 0 0 (PInt 3) (toy_dataset (PStr ''flaky.json'')) (toy_dataset (PStr ''val.json'')) [])..1 - 1]
           (toy_trainer 0 0 (PInt 3) (toy_dataset (PStr ''flaky.json'')) (toy_dataset (PStr ''val.json'')) [])
      of Returned u sk \<Rightarrow>
           fst (iterate toy (train_loader sk)) = [Batch [(1, 1)], Raise] \<and>
           map fst (storage sk) = [''d/e/checkpoints/00000000.pth'']
       | Raised e sk \<Rightarrow> False)"
  by code_simp

theorem loop_train_fault_witness:
  "\<exists>s'. loop toy (toy_trainer 0 0 (PInt 3) (toy_dataset (PStr ''flaky.json'')) (toy_dataset (PStr ''val.json'')) [])
          = Raised LoaderFault s' \<and>
        training_epoch s' = 1 \<and> map fst (storage s') = [''d/e/checkpoints/00000000.pth'']"
proof -
  let ?t = "toy_trainer 0 0 (PInt 3) (toy_dataset (PStr ''flaky.json'')) (toy_dataset (PStr ''val.json'')) []"
  from Returned_caseD [OF toy_flaky_first_epoch] obtain u sk where
    h4: "loop_epochs toy [training_epoch ?t..1 - 1] ?t = Returned u sk"
    and it: "fst (iterate toy (train_loader sk)) = [Batch [(1, 1)], Raise]"
    and st: "map fst (storage sk) = [''d/e/checkpoints/00000000.pth'']"
    by (elim exE conjE)
  have h1: "epochs ?t = PInt 3" and h2: "training_epoch ?t \<le> 1"
    by (simp_all add: toy_trainer_def)
  have h3: "(1::int) < 3" by simp
  obtain items l' where h5: "iterate toy (train_loader sk) = (items, l')"
    by (cases "iterate toy (train_loader sk)")
  with it have "items = [Batch [(1, 1)], Raise]" by simp
  then have h6: "\<not> list_all is_batch items" by simp
  from loop_train_fault [OF h1 h2 h3 h4 h5 h6] obtain s' where
    a: "loop toy ?t = Raised LoaderFault s'" and b: "training_epoch s' = 1"
    and c: "storage s' = storage sk"
    by (elim exE conjE)
  from st c have "map fst (storage s') = [''d/e/checkpoints/00000000.pth'']"
    by (simp only:)
  with a b have k: "loop toy ?t = Raised LoaderFault s' \<and>
        training_epoch s' = 1 \<and> map fst (storage s') = [''d/e/checkpoints/00000000.pth'']"
    by (intro conjI)
  show ?thesis by (rule exI [where x = s']) (rule k)
qed


section \<open>The accuracy of a pass\<close>

text \<open>
  C5. When a training pass or a validation pass returns, the accuracy it prints last
  and logs last for the current epoch is the number of examples of the pass whose
  predicted label equals the ground-truth label, divided by the number of examples of
  the pass. The examples are those of all batches the iterator yielded, there is at
  least one, and the predicted labels are the ones the pass collected: in validation
  the predictions of the model in evaluation mode, in training the predictions made
  for each batch by the model as it was when the batch arrived. The accuracy is \<open>1\<close>
  when every prediction equals its label and \<open>0\<close> when none does.
\<close>

theorem pass_accuracy:
  "(train_epoch B s = Returned u s' \<and> iterate B (train_loader s) = (items, l') \<longrightarrow>
      (let pd = train_predictions B (s\<lparr> training := True, train_loader := l' \<rparr>) items;
           gt = pass_labels items;
           acc = real (card {i. i < length gt \<and> pd ! i = gt ! i}) / real (length gt)
       in length pd = length gt \<and>
          length gt = sum_list (map (\<lambda>it. length (the_batch it)) (yielded items)) \<and>
          gt \<noteq> [] \<and>
          last (writer s') = (''Train CLASS accuracy'', acc, training_epoch s) \<and>
          last (stdout s') = TrainAccuracy acc \<and>
          ((\<forall>i < length gt. pd ! i = gt ! i) \<longrightarrow> acc = 1) \<and>
          ((\<forall>i < length gt. pd ! i \<noteq> gt ! i) \<longrightarrow> acc = 0))) \<and>
   (val B t = Returned v t' \<and> iterate B (val_loader t) = (vitems, vl') \<longrightarrow>
      (let pd = pass_predictions B False (model t) vitems;
           gt = pass_labels vitems;
           acc = real (card {i. i < length gt \<and> pd ! i = gt ! i}) / real (length gt)
       in length pd = length gt \<and>
          length gt = sum_list (map (\<lambda>it. length (the_batch it)) (yielded vitems)) \<and>
          gt \<noteq> [] \<and>
          last (writer t') = (''Validation CLASS accuracy'', acc, training_epoch t) \<and>
          last (stdout t') = ValidationAccuracy acc \<and>
          ((\<forall>i < length gt. pd ! i = gt ! i) \<longrightarrow> acc = 1) \<and>
          ((\<forall>i < length gt. pd ! i \<noteq> gt ! i) \<longrightarrow> acc = 0)))"
proof (intro conjI impI)
  assume a: "train_epoch B s = Returned u s' \<and> iterate B (train_loader s) = (items, l')"
  let ?s1 = "s\<lparr> training := True, train_loader := l' \<rparr>"
  let ?pd = "train_predictions B ?s1 items"
  let ?gt = "pass_labels items"
  from a have r: "train_epoch B s = Returned u s'" and it: "iterate B (train_loader s) = (items, l')"
    by simp_all
  from train_epoch_Returned [OF r it] obtain r2 s2 loss acc where
    tb: "train_batches B 0 items (running0, ?s1) = Returned r2 s2"
    and ca: "class_accuracy (pd_class r2) (gt_class r2) = Inr acc"
    and w: "writer s' = writer s2 @ [(''Train loss (epochs)'', loss, training_epoch s),
                                    (''Train CLASS accuracy'', acc, training_epoch s)]"
    and o: "stdout s' = stdout s2 @ [TrainLoss loss, TrainAccuracy acc]"
    by (elim exE conjE)
  have lab: "gt_class r2 = ?gt" "pd_class r2 = ?pd"
    using train_pass_labels [OF tb] by simp_all
  have len: "length ?pd = length ?gt"
    using train_batches_aligned [OF tb] by (simp add: lab running0_def)
  note ac = accuracy_cases [OF ca [unfolded lab] len]
  have g: "?gt \<noteq> []" by (rule ac [THEN conjunct1])
  have av: "acc = real (card {i. i < length ?gt \<and> ?pd ! i = ?gt ! i}) / real (length ?gt)"
    by (rule ac [THEN conjunct2, THEN conjunct1])
  have a1: "(\<forall>i < length ?gt. ?pd ! i = ?gt ! i) \<longrightarrow> acc = 1"
    by (rule ac [THEN conjunct2, THEN conjunct2, THEN conjunct1])
  have a0: "(\<forall>i < length ?gt. ?pd ! i \<noteq> ?gt ! i) \<longrightarrow> acc = 0"
    by (rule ac [THEN conjunct2, THEN conjunct2, THEN conjunct2])
  have lw: "last (writer s') = (''Train CLASS accuracy'', acc, training_epoch s)"
    by (simp add: w)
  have lo: "last (stdout s') = TrainAccuracy acc" by (simp add: o)
  have n: "length ?gt = sum_list (map (\<lambda>it. length (the_batch it)) (yielded items))"
    by (rule length_pass_labels)
  show "let pd = ?pd; gt = ?gt;
           acc = real (card {i. i < length gt \<and> pd ! i = gt ! i}) / real (length gt)
       in length pd = length gt \<and>
          length gt = sum_list (map (\<lambda>it. length (the_batch it)) (yielded items)) \<and>
          gt \<noteq> [] \<and>
          last (writer s') = (''Train CLASS accuracy'', acc, training_epoch s) \<and>
          last (stdout s') = TrainAccuracy acc \<and>
          ((\<forall>i < length gt. pd ! i = gt ! i) \<longrightarrow> acc = 1) \<and>
          ((\<forall>i < length gt. pd ! i \<noteq> gt ! i) \<longrightarrow> acc = 0)"
    unfolding Let_def av [symmetric]
    using len n g lw lo a1 a0 by (intro conjI)
next
  assume a: "val B t = Returned v t' \<and> iterate B (val_loader t) = (vitems, vl')"
  let ?pd = "pass_predictions B False (model t) vitems"
  let ?gt = "pass_labels vitems"
  from a have r: "val B t = Returned v t'" and it: "iterate B (val_loader t) = (vitems, vl')"
    by simp_all
  from val_Returned [OF r it] obtain bs acc where
    bs: "vitems = map Batch bs"
    and ca: "class_accuracy (concat (map (classes_of B False (model t)) bs))
               (concat (map (map snd) bs)) = Inr acc"
    and t': "t' = t\<lparr> training := False, val_loader := vl',
                   stdout := stdout t @ [ValidationLoss v, ValidationAccuracy acc],
                   writer := writer t @ [(''Validation loss'', v, training_epoch t),
                                         (''Validation CLASS accuracy'', acc, training_epoch t)] \<rparr>"
    by (elim exE conjE)
  have lab: "concat (map (map snd) bs) = ?gt" "concat (map (classes_of B False (model t)) bs) = ?pd"
    using val_pass_labels [of bs B False "model t"] by (simp_all add: bs)
  have len: "length ?pd = length ?gt" by (rule length_pass_predictions)
  note ac = accuracy_cases [OF ca [unfolded lab] len]
  have g: "?gt \<noteq> []" by (rule ac [THEN conjunct1])
  have av: "acc = real (card {i. i < length ?gt \<and> ?pd ! i = ?gt ! i}) / real (length ?gt)"
    by (rule ac [THEN conjunct2, THEN conjunct1])
  have a1: "(\<forall>i < length ?gt. ?pd ! i = ?gt ! i) \<longrightarrow> acc = 1"
    by (rule ac [THEN conjunct2, THEN conjunct2, THEN conjunct1])
  have a0: "(\<forall>i < length ?gt. ?pd ! i \<noteq> ?gt ! i) \<longrightarrow> acc = 0"
    by (rule ac [THEN conjunct2, THEN conjunct2, THEN conjunct2])
  have lw: "last (writer t') = (''Validation CLASS accuracy'', acc, training_epoch t)"
    by (simp add: t')
  have lo: "last (stdout t') = ValidationAccuracy acc" by (simp add: t')
  have n: "length ?gt = sum_list (map (\<lambda>it. length (the_batch it)) (yielded vitems))"
    by (rule length_pass_labels)
  show "let pd = ?pd; gt = ?gt;
           acc = real (card {i. i < length gt \<and> pd ! i = gt ! i}) / real (length gt)
       in length pd = length gt \<and>
          length gt = sum_list (map (\<lambda>it. length (the_batch it)) (yielded vitems)) \<and>
          gt \<noteq> [] \<and>
          last (writer t') = (''Validation CLASS accuracy'', acc, training_epoch t) \<and>
          last (stdout t') = ValidationAccuracy acc \<and>
          ((\<forall>i < length gt. pd ! i = gt ! i) \<longrightarrow> acc = 1) \<and>
          ((\<forall>i < length gt. pd ! i \<noteq> gt ! i) \<longrightarrow> acc = 0)"
    unfolding Let_def av [symmetric]
    using len n g lw lo a1 a0 by (intro conjI)
qed

lemma toy_passes_return:
  "returned_value (train_epoch toy (toy_trainer 0 0 (PInt 2) (1, [[Batch [(1, 1), (2, 2)]]]) (1, [[Batch [(1, 1), (2, 2)]]]) [])) = Some () \<and>
   returned_value (train_epoch toy (toy_trainer 0 0 (PInt 2) (1, [[Batch [(0, 1), (1, 2)]]]) (1, [[Batch [(0, 1), (1, 2)]]]) [])) = Some () \<and>
   returned_value (val toy (toy_trainer 0 0 (PInt 2) (1, [[Batch [(1, 1), (2, 2)]]]) (1, [[Batch [(1, 1), (2, 2)]]]) [])) = Some (1 / 2) \<and>
   returned_value (val toy (toy_trainer 0 0 (PInt 2) (1, [[Batch [(0, 1), (1, 2)]]]) (1, [[Batch [(0, 1), (1, 2)]]]) [])) = Some (1 / 2)"
  by code_simp

lemma toy_pass_labels:
  "train_predictions toy
     ((toy_trainer 0 0 (PInt 2) (1, [[Batch [(1, 1), (2, 2)]]]) (1, [[Batch [(1, 1), (2, 2)]]]) [])\<lparr> training := True, train_loader := (1, []) \<rparr>)
     [Batch [(1, 1), (2, 2)]] = [1, 2] \<and>
   train_predictions toy
     ((toy_trainer 0 0 (PInt 2) (1, [[Batch [(0, 1), (1, 2)]]]) (1, [[Batch [(0, 1), (1, 2)]]]) [])\<lparr> training := True, train_loader := (1, []) \<rparr>)
     [Batch [(0, 1), (1, 2)]] = [0, 1] \<and>
   pass_predictions toy False 0 [Batch [(1, 1), (2, 2)]] = [1, 2] \<and>
   pass_predictions toy False 0 [Batch [(0, 1), (1, 2)]] = [0, 1] \<and>
   pass_labels [Batch [(1, 1 :: int), (2, 2)] :: int item] = [1, 2] \<and>
   pass_labels [Batch [(0, 1 :: int), (1, 2)] :: int item] = [1, 2]"
  by code_simp

theorem pass_accuracy_witness:
  "(\<exists>s'. train_epoch toy (toy_trainer 0 0 (PInt 2) (1, [[Batch [(1, 1), (2, 2)]]]) (1, [[Batch [(1, 1), (2, 2)]]]) []) = Returned () s' \<and>
         last (writer s') = (''Train CLASS accuracy'', 1, 0)) \<and>
   (\<exists>s'. train_epoch toy (toy_trainer 0 0 (PInt 2) (1, [[Batch [(0, 1), (1, 2)]]]) (1, [[Batch [(0, 1), (1, 2)]]]) []) = Returned () s' \<and>
         last (writer s') = (''Train CLASS accuracy'', 0, 0)) \<and>
   (\<exists>t'. val toy (toy_trainer 0 0 (PInt 2) (1, [[Batch [(1, 1), (2, 2)]]]) (1, [[Batch [(1, 1), (2, 2)]]]) []) = Returned (1 / 2) t' \<and>
         last (writer t') = (''Validation CLASS accuracy'', 1, 0)) \<and>
   (\<exists>t'. val toy (toy_trainer 0 0 (PInt 2) (1, [[Batch [(0, 1), (1, 2)]]]) (1, [[Batch [(0, 1), (1, 2)]]]) []) = Returned (1 / 2) t' \<and>
         last (writer t') = (''Validation CLASS accuracy'', 0, 0))"
proof (intro conjI)
  let ?A = "toy_trainer 0 0 (PInt 2) (1, [[Batch [(1, 1), (2, 2)]]]) (1, [[Batch [(1, 1), (2, 2)]]]) []"
  let ?N = "toy_trainer 0 0 (PInt 2) (1, [[Batch [(0, 1), (1, 2)]]]) (1, [[Batch [(0, 1), (1, 2)]]]) []"
  have itA: "iterate toy (train_loader ?A) = ([Batch [(1, 1), (2, 2)]], (1, []))"
    and itN: "iterate toy (train_loader ?N) = ([Batch [(0, 1), (1, 2)]], (1, []))"
    and vtA: "iterate toy (val_loader ?A) = ([Batch [(1, 1), (2, 2)]], (1, []))"
    and vtN: "iterate toy (val_loader ?N) = ([Batch [(0, 1), (1, 2)]], (1, []))"
    and ep: "training_epoch ?A = 0" "training_epoch ?N = 0"
    and md: "model ?A = 0" "model ?N = 0"
    by (simp_all add: toy_def toy_trainer_def toy_iterate_def)
  note lab = toy_pass_labels
  have all: "\<forall>i < length [1, 2 :: int]. [1, 2 :: int] ! i = [1, 2] ! i" by simp
  have none: "\<forall>i < length [1, 2 :: int]. [0, 1 :: int] ! i \<noteq> [1, 2] ! i"
    by (simp add: less_Suc_eq nth_Cons')
  {
    from returned_valueD [OF toy_passes_return [THEN conjunct1]] obtain s' where
      r: "train_epoch toy ?A = Returned () s'" by (elim exE)
    note h = pass_accuracy [of toy ?A "()" s' "[Batch [(1, 1), (2, 2)]]" "(1, [])",
        THEN conjunct1, THEN mp, OF conjI [OF r itA], unfolded Let_def]
    define acc where "acc = real (card {i. i < length [1, 2 :: int] \<and> [1, 2 :: int] ! i = [1, 2] ! i})
        / real (length [1, 2 :: int])"
    note h' = h [unfolded lab [THEN conjunct1] lab [THEN conjunct2, THEN conjunct2, THEN conjunct2, THEN conjunct2, THEN conjunct1] ep, folded acc_def]
    from h' all have "acc = 1" by (elim conjE) (erule mp)
    with h' have "last (writer s') = (''Train CLASS accuracy'', 1, 0)" by (elim conjE) simp
    with r have k: "train_epoch toy ?A = Returned () s' \<and>
         last (writer s') = (''Train CLASS accuracy'', 1, 0)" by (intro conjI)
    have "\<exists>s'. train_epoch toy ?A = Returned () s' \<and>
         last (writer s') = (''Train CLASS accuracy'', 1, 0)"
      by (rule exI [where x = s']) (rule k)
  }
  then show "\<exists>s'. train_epoch toy ?A = Returned () s' \<and>
         last (writer s') = (''Train CLASS accuracy'', 1, 0)" .
  {
    from returned_valueD [OF toy_passes_return [THEN conjunct2, THEN conjunct1]] obtain s' where
      r: "train_epoch toy ?N = Returned () s'" by (elim exE)
    note h = pass_accuracy [of toy ?N "()" s' "[Batch [(0, 1), (1, 2)]]" "(1, [])",
        THEN conjunct1, THEN mp, OF conjI [OF r itN], unfolded Let_def]
    define acc where "acc = real (card {i. i < length [1, 2 :: int] \<and> [0, 1 :: int] ! i = [1, 2] ! i})
        / real (length [1, 2 :: int])"
    note h' = h [unfolded lab [THEN conjunct2, THEN conjunct1] lab [THEN conjunct2, THEN conjunct2, THEN conjunct2, THEN conjunct2, THEN conjunct2] ep, folded acc_def]
    from h' none have "acc = 0" by (elim conjE) (erule mp)
    with h' have "last (writer s') = (''Train CLASS accuracy'', 0, 0)" by (elim conjE) simp
    with r have k: "train_epoch toy ?N = Returned () s' \<and>
         last (writer s') = (''Train CLASS accuracy'', 0, 0)" by (intro conjI)
    have "\<exists>s'. train_epoch toy ?N = Returned () s' \<and>
         last (writer s') = (''Train CLASS accuracy'', 0, 0)"
      by (rule exI [where x = s']) (rule k)
  }
  then show "\<exists>s'. train_epoch toy ?N = Returned () s' \<and>
         last (writer s') = (''Train CLASS accuracy'', 0, 0)" .
  {
    from returned_valueD [OF toy_passes_return [THEN conjunct2, THEN conjunct2, THEN conjunct1]]
    obtain t' where r: "val toy ?A = Returned (1 / 2) t'" by (elim exE)
    note h = pass_accuracy [of toy _ _ _ _ _ ?A "1 / 2" t' "[Batch [(1, 1), (2, 2)]]" "(1, [])",
        THEN conjunct2, THEN mp, OF conjI [OF r vtA], unfolded Let_def]
    define acc where "acc = real (card {i. i < length [1, 2 :: int] \<and> [1, 2 :: int] ! i = [1, 2] ! i})
        / real (length [1, 2 :: int])"
    note h' = h [unfolded md lab [THEN conjunct2, THEN conjunct2, THEN conjunct1] lab [THEN conjunct2, THEN conjunct2, THEN conjunct2, THEN conjunct2, THEN conjunct1] ep, folded acc_def]
    from h' all have "acc = 1" by (elim conjE) (erule mp)
    with h' have "last (writer t') = (''Validation CLASS accuracy'', 1, 0)" by (elim conjE) simp
    with r have k: "val toy ?A = Returned (1 / 2) t' \<and>
         last (writer t') = (''Validation CLASS accuracy'', 1, 0)" by (intro conjI)
    have "\<exists>t'. val toy ?A = Returned (1 / 2) t' \<and>
         last (writer t') = (''Validation CLASS accuracy'', 1, 0)"
      by (rule exI [where x = t']) (rule k)
  }
  then show "\<exists>t'. val toy ?A = Returned (1 / 2) t' \<and>
         last (writer t') = (''Validation CLASS accuracy'', 1, 0)" .
  {
    from returned_valueD [OF toy_passes_return [THEN conjunct2, THEN conjunct2, THEN conjunct2]]
    obtain t' where r: "val toy ?N = Returned (1 / 2) t'" by (elim exE)
    note h = pass_accuracy [of toy _ _ _ _ _ ?N "1 / 2" t' "[Batch [(0, 1), (1, 2)]]" "(1, [])",
        THEN conjunct2, THEN mp, OF conjI [OF r vtN], unfolded Let_def]
    define acc where "acc = real (card {i. i < length [1, 2 :: int] \<and> [0, 1 :: int] ! i = [1, 2] ! i})
        / real (length [1, 2 :: int])"
    note h' = h [unfolded md lab [THEN conjunct2, THEN conjunct2, THEN conjunct2, THEN conjunct1] lab [THEN conjunct2, THEN conjunct2, THEN conjunct2, THEN conjunct2, THEN conjunct2] ep, folded acc_def]
    from h' none have "acc = 0" by (elim conjE) (erule mp)
    with h' have "last (writer t') = (''Validation CLASS accuracy'', 0, 0)" by (elim conjE) simp
    with r have k: "val toy ?N = Returned (1 / 2) t' \<and>
         last (writer t') = (''Validation CLASS accuracy'', 0, 0)" by (intro conjI)
    have "\<exists>t'. val toy ?N = Returned (1 / 2) t' \<and>
         last (writer t') = (''Validation CLASS accuracy'', 0, 0)"
      by (rule exI [where x = t']) (rule k)
  }
  then show "\<exists>t'. val toy ?N = Returned (1 / 2) t' \<and>
         last (writer t') = (''Validation CLASS accuracy'', 0, 0)" .
qed

section \<open>The per-batch log of a training pass\<close>

text \<open>
  C7. Take a call of \<open>train_epoch\<close>, however it ends, and let \<open>n\<close> be the number of
  batches the train iterator yields in it. For every batch, numbered \<open>k = 0, \<dots>, n - 1\<close>,
  the scalar log receives one entry under the tag of the per-iteration training loss:
  its value is the loss of that batch for the model as it is when the batch arrives,
  and its step is the value of \<open>total_iter\<close> at that moment; after the batch
  \<open>total_iter\<close> is larger by exactly one. This holds for every batch, whether or not a
  progress line is printed for it, so \<open>total_iter\<close> ends \<open>n\<close> above its value on entry. The
  progress lines added to the output are exactly those of the batches whose number,
  counted from one, is a multiple of \<open>100\<close>, in order.
\<close>

theorem train_epoch_step_log:
  assumes "iterate B (train_loader s) = (items, l')"
  shows "total_iter (state_of (train_epoch B s)) = total_iter s + int (length (yielded items)) \<and>
    (\<forall>k < length (yielded items).
        drop (length (writer s)) (writer (state_of (train_epoch B s))) ! k =
          (''Train loss (iterations)'',
           loss_item B True
             (model (after_batches B (s\<lparr> training := True, train_loader := l' \<rparr>) items k))
             (the_batch (items ! k)),
           total_iter (after_batches B (s\<lparr> training := True, train_loader := l' \<rparr>) items k)) \<and>
        total_iter (after_batches B (s\<lparr> training := True, train_loader := l' \<rparr>) items (Suc k)) =
          total_iter (after_batches B (s\<lparr> training := True, train_loader := l' \<rparr>) items k) + 1) \<and>
    total_iter (after_batches B (s\<lparr> training := True, train_loader := l' \<rparr>) items 0) = total_iter s \<and>
    progress_prints (stdout (state_of (train_epoch B s))) =
       progress_prints (stdout s) @ filter (\<lambda>k. k mod 100 = 0) [1..<Suc (length (yielded items))]"
proof -
  let ?s1 = "s\<lparr> training := True, train_loader := l' \<rparr>"
  let ?o = "train_batches B 0 items (running0, ?s1)"
  let ?n = "length (yielded items)"
  let ?ev = "\<lambda>k. (''Train loss (iterations)'',
                          loss_item B True (model (after_batches B ?s1 items k)) (the_batch (items ! k)),
                          total_iter s + int k)"
  from train_epoch_tail [OF assms] obtain tw tout where
    w: "writer (state_of (train_epoch B s)) = writer (state_of ?o) @ tw"
    and out: "stdout (state_of (train_epoch B s)) = stdout (state_of ?o) @ tout"
    and np: "progress_prints tout = []"
    by (elim exE conjE)
  have wo: "writer (state_of ?o) = writer s @ map ?ev [0..<?n]"
    using train_batches_writer [of B 0 items running0 ?s1] by (simp add: after_batches_def)
  have c1: "total_iter (state_of (train_epoch B s)) = total_iter s + int ?n"
    using train_epoch_frame [OF assms] by simp
  have c2: "\<forall>k < ?n.
        drop (length (writer s)) (writer (state_of (train_epoch B s))) ! k =
          (''Train loss (iterations)'',
           loss_item B True (model (after_batches B ?s1 items k)) (the_batch (items ! k)),
           total_iter (after_batches B ?s1 items k)) \<and>
        total_iter (after_batches B ?s1 items (Suc k)) = total_iter (after_batches B ?s1 items k) + 1"
  proof (intro allI impI)
    fix k assume k: "k < ?n"
    have "drop (length (writer s)) (writer (state_of (train_epoch B s))) ! k = (map ?ev [0..<?n] @ tw) ! k"
      by (simp add: w wo)
    also have "\<dots> = ?ev k" using k by (simp add: nth_append)
    finally have "drop (length (writer s)) (writer (state_of (train_epoch B s))) ! k = ?ev k" .
    moreover have "total_iter (after_batches B ?s1 items k) = total_iter s + int k"
      using k after_batches_total_iter [of k items B ?s1] by simp
    moreover have "total_iter (after_batches B ?s1 items (Suc k)) = total_iter s + int (Suc k)"
      using k after_batches_total_iter [of "Suc k" items B ?s1] by simp
    ultimately show "drop (length (writer s)) (writer (state_of (train_epoch B s))) ! k =
          (''Train loss (iterations)'',
           loss_item B True (model (after_batches B ?s1 items k)) (the_batch (items ! k)),
           total_iter (after_batches B ?s1 items k)) \<and>
        total_iter (after_batches B ?s1 items (Suc k)) = total_iter (after_batches B ?s1 items k) + 1"
      by simp
  qed
  have c3: "total_iter (after_batches B ?s1 items 0) = total_iter s"
    by (simp add: after_batches_def)
  have c4: "progress_prints (stdout (state_of (train_epoch B s))) =
       progress_prints (stdout s) @ filter (\<lambda>k. k mod 100 = 0) [1..<Suc ?n]"
    using train_batches_progress [of B 0 items running0 ?s1]
    by (simp add: out np progress_prints_append)
  from c1 c2 c3 c4 show ?thesis by (intro conjI)
qed

lemma toy_long_pass:
  "length (yielded (replicate 100 (Batch [(1, 1 :: int)] :: int item))) = 100 \<and>
   filter (\<lambda>k. k mod 100 = 0) [1..<Suc 100] = [100::nat]"
  by code_simp

theorem train_epoch_step_log_witness:
  "total_iter (state_of (train_epoch toy
      (toy_trainer 0 7 (PInt 1) (toy_dataset (PStr ''long.json'')) (toy_dataset (PStr ''val.json'')) []))) = 107 \<and>
   writer (state_of (train_epoch toy
      (toy_trainer 0 7 (PInt 1) (toy_dataset (PStr ''long.json'')) (toy_dataset (PStr ''val.json'')) []))) ! 98
     = (''Train loss (iterations)'', 1 / 2, 105) \<and>
   progress_prints (stdout (state_of (train_epoch toy
      (toy_trainer 0 7 (PInt 1) (toy_dataset (PStr ''long.json'')) (toy_dataset (PStr ''val.json'')) [])))) = [100]"
proof -
  let ?t = "toy_trainer 0 7 (PInt 1) (toy_dataset (PStr ''long.json'')) (toy_dataset (PStr ''val.json'')) []"
  let ?items = "replicate 100 (Batch [(1, 1 :: int)]) :: int item list"
  let ?s1 = "?t\<lparr> training := True, train_loader := (100, []) \<rparr>"
  have it: "iterate toy (train_loader ?t) = (?items, (100, []))"
    by (simp add: toy_def toy_trainer_def toy_iterate_def toy_dataset_def)
  have f: "total_iter ?t = 7" "writer ?t = []" "stdout ?t = []"
    by (simp_all add: toy_trainer_def)
  have n: "length (yielded ?items) = 100" and fl: "filter (\<lambda>k. k mod 100 = 0) [1..<Suc 100] = [100::nat]"
    using toy_long_pass by simp_all
  note h = train_epoch_step_log [OF it, unfolded n f fl]
  from h have a: "total_iter (state_of (train_epoch toy ?t)) = 107" by simp
  from h have c: "progress_prints (stdout (state_of (train_epoch toy ?t))) = [100]" by simp
  from h have "\<forall>k<100. writer (state_of (train_epoch toy ?t)) ! k =
          (''Train loss (iterations)'', 1 / 2, total_iter (after_batches toy ?s1 ?items k))"
    by (simp add: toy_def)
  then have "writer (state_of (train_epoch toy ?t)) ! 98 =
          (''Train loss (iterations)'', 1 / 2, total_iter (after_batches toy ?s1 ?items 98))"
    by simp
  moreover have "total_iter (after_batches toy ?s1 ?items 98) = total_iter ?s1 + int 98"
    by (rule after_batches_total_iter) (simp add: n)
  ultimately have b: "writer (state_of (train_epoch toy ?t)) ! 98 = (''Train loss (iterations)'', 1 / 2, 105)"
    by (simp add: f)
  from a b c show ?thesis by (intro conjI)
qed


section \<open>The counters after construction\<close>

text \<open>
  C3. Whenever the construction of a trainer succeeds: if the configuration has no
  \<open>model_path\<close> key, or has one whose value is not truthy, then \<open>training_epoch\<close> and
  \<open>total_iter\<close> are both \<open>0\<close>; if it has one with a truthy value, the value is the path of
  a checkpoint in the storage and the two counters are the epoch index and the step
  count stored in that checkpoint, which are what \<open>load_checkpoint\<close> returns.
\<close>

theorem init_counters:
  assumes "init B st params = Inr t"
  shows "case params ''model_path'' of
           None \<Rightarrow> training_epoch t = 0 \<and> total_iter t = 0
         | Some v \<Rightarrow>
             if truthy v
             then \<exists>p ck. v = PStr p \<and> read_file st p = Some ck \<and>
                    load_checkpoint v st
                      = Inr (ck_state_dict ck, ck_optimizer ck, ck_epoch ck, ck_total_iter ck) \<and>
                    training_epoch t = ck_epoch ck \<and> total_iter t = ck_total_iter ck
             else training_epoch t = 0 \<and> total_iter t = 0"
proof -
  from init_Inr [OF assms] obtain m opt m' opt' ep it where
    l: "(if truthy (get_default params ''model_path'' (PBool False))
            then load_checkpoint (get_default params ''model_path'' (PBool False)) st
            else Inr (m, opt, 0, 0)) = Inr (m', opt', ep, it)"
    and c: "training_epoch t = ep" "total_iter t = it"
    by (elim exE conjE)
  show ?thesis
  proof (cases "params ''model_path''")
    case None
    with l c show ?thesis by (simp add: get_default_def)
  next
    case (Some v)
    show ?thesis
    proof (cases "truthy v")
      case True
      with l Some have lc: "load_checkpoint v st = Inr (m', opt', ep, it)"
        by (simp add: get_default_def)
      from load_checkpoint_Inr [OF this] obtain p ck where
        "v = PStr p" "read_file st p = Some ck" "m' = ck_state_dict ck"
        "opt' = ck_optimizer ck" "ep = ck_epoch ck" "it = ck_total_iter ck"
        by (elim exE conjE)
      with lc c have "v = PStr p \<and> read_file st p = Some ck \<and>
                    load_checkpoint v st
                      = Inr (ck_state_dict ck, ck_optimizer ck, ck_epoch ck, ck_total_iter ck) \<and>
                    training_epoch t = ck_epoch ck \<and> total_iter t = ck_total_iter ck"
        by simp
      then have "\<exists>p ck. v = PStr p \<and> read_file st p = Some ck \<and>
                    load_checkpoint v st
                      = Inr (ck_state_dict ck, ck_optimizer ck, ck_epoch ck, ck_total_iter ck) \<and>
                    training_epoch t = ck_epoch ck \<and> total_iter t = ck_total_iter ck"
        by (intro exI)
      with Some True show ?thesis by simp
    next
      case False
      with l c Some show ?thesis by (simp add: get_default_def)
    qed
  qed
qed

lemma toy_init_fresh:
  "(case init toy [] toy_config of Inl e \<Rightarrow> False | Inr t \<Rightarrow> True)"
  by code_simp

lemma toy_init_resumed:
  "(case init toy
           [(''d/e/checkpoints/00000003.pth'',
             \<lparr> ck_state_dict = 8, ck_optimizer = 8, ck_epoch = 3, ck_total_iter = 8 \<rparr>)]
           (toy_config(''model_path'' \<mapsto> PStr ''d/e/checkpoints/00000003.pth''))
      of Inl e \<Rightarrow> False | Inr t \<Rightarrow> True)"
  by code_simp

theorem init_counters_witness:
  "(\<exists>t. init toy [] toy_config = Inr t \<and> training_epoch t = 0 \<and> total_iter t = 0) \<and>
   (\<exists>t. init toy
           [(''d/e/checkpoints/00000003.pth'',
             \<lparr> ck_state_dict = 8, ck_optimizer = 8, ck_epoch = 3, ck_total_iter = 8 \<rparr>)]
           (toy_config(''model_path'' \<mapsto> PStr ''d/e/checkpoints/00000003.pth'')) = Inr t \<and>
        training_epoch t = 3 \<and> total_iter t = 8)"
proof (rule conjI)
  from Inr_caseD [OF toy_init_fresh] obtain t where r: "init toy [] toy_config = Inr t"
    by (elim exE conjE)
  have "toy_config ''model_path'' = None" by (simp add: toy_config_def)
  with init_counters [OF r] have "training_epoch t = 0 \<and> total_iter t = 0" by simp
  with r have k: "init toy [] toy_config = Inr t \<and> training_epoch t = 0 \<and> total_iter t = 0"
    by (intro conjI) simp_all
  show "\<exists>t. init toy [] toy_config = Inr t \<and> training_epoch t = 0 \<and> total_iter t = 0"
    by (rule exI [where x = t]) (rule k)
next
  let ?ck = "\<lparr> ck_state_dict = 8 :: nat, ck_optimizer = 8 :: nat, ck_epoch = 3, ck_total_iter = 8 \<rparr>"
  let ?st = "[(''d/e/checkpoints/00000003.pth'', ?ck)]"
  let ?cfg = "toy_config(''model_path'' \<mapsto> PStr ''d/e/checkpoints/00000003.pth'')"
  from Inr_caseD [OF toy_init_resumed] obtain t where r: "init toy ?st ?cfg = Inr t"
    by (elim exE conjE)
  have "?cfg ''model_path'' = Some (PStr ''d/e/checkpoints/00000003.pth'')" by simp
  with init_counters [OF r] have "training_epoch t = 3 \<and> total_iter t = 8"
    by (auto simp: read_file_def)
  with r have k: "init toy ?st ?cfg = Inr t \<and> training_epoch t = 3 \<and> total_iter t = 8"
    by (intro conjI) simp_all
  show "\<exists>t. init toy ?st ?cfg = Inr t \<and> training_epoch t = 3 \<and> total_iter t = 8"
    by (rule exI [where x = t]) (rule k)
qed

section \<open>Resuming from a checkpoint written by the epoch driver\<close>

text \<open>
  C1. The script is run on an empty storage with two epochs configured and completes:
  it writes the checkpoints of epoch \<open>0\<close> and epoch \<open>1\<close>, the second holding epoch index
  \<open>1\<close> and step count \<open>4\<close>. The script is then run again with \<open>model_path\<close> set to the
  second checkpoint. The new trainer starts with \<open>training_epoch = 1\<close> and
  \<open>total_iter = 4\<close>, and its \<open>loop\<close> runs epoch \<open>1\<close> once more: the checkpoint of epoch
  \<open>1\<close> is written a second time, now with step count \<open>6\<close>. So the epoch whose checkpoint
  was loaded is repeated, although its training pass is already part of the loaded
  model state and of the loaded step count.
\<close>

theorem resume_repeats_saved_epoch:
  "written first_run
     = [(''d/e/checkpoints/00000000.pth'', 0, 2), (''d/e/checkpoints/00000001.pth'', 1, 4)] \<and>
   written (final_storage first_run
              (main toy first_run (toy_config(''model_path'' \<mapsto> PStr ''d/e/checkpoints/00000001.pth''))))
     = [(''d/e/checkpoints/00000000.pth'', 0, 2), (''d/e/checkpoints/00000001.pth'', 1, 4),
        (''d/e/checkpoints/00000001.pth'', 1, 6)] \<and>
   (case init toy first_run (toy_config(''model_path'' \<mapsto> PStr ''d/e/checkpoints/00000001.pth''))
      of Inl e \<Rightarrow> False | Inr t \<Rightarrow> training_epoch t = 1 \<and> total_iter t = 4)"
  by code_simp


end
